theory Spec2Isabelle
  imports Complex_Main "HOL-Library.Multiset" "HOL-Library.Product_Lexorder"
begin

section \<open>JavaScript values used by the task engine\<close>

text \<open>
  A task id is read from \<^verbatim>\<open>tasks.json\<close> or from the generator's JSON: a number or a
  string. \<open>IdNum n\<close> is an integer-valued number (in the range where JavaScript prints
  integers in plain decimal), \<open>IdStr s\<close> a string. Equality of the datatype is the strict
  equality \<^verbatim>\<open>===\<close> of the source: \<open>IdNum 7\<close> and \<open>IdStr ''7''\<close> differ.
\<close>

datatype jsid = IdNum int | IdStr string

text \<open>
  A JavaScript number as far as the engine uses one: the result of \<^verbatim>\<open>parseFloat\<close>.
  Finite values are exact rationals (the rounding of IEEE doubles is outside the model).
\<close>

datatype jsnum = NaN | NegInf | Fin rat | PosInf

definition decimalDigits :: string where
  "decimalDigits = ''0123456789''"

definition isDigit :: "char \<Rightarrow> bool" where
  "isDigit c = (c \<in> set decimalDigits)"

definition digitVal :: "char \<Rightarrow> nat" where
  "digitVal c = length (takeWhile (\<lambda>d. d \<noteq> c) decimalDigits)"

definition digitsVal :: "string \<Rightarrow> nat" where
  "digitsVal ds = foldl (\<lambda>a c. 10 * a + digitVal c) 0 ds"

text \<open>ASCII white space skipped by \<^verbatim>\<open>parseFloat\<close> and \<^verbatim>\<open>parseInt\<close>: TAB, LF, VT, FF, CR, space.\<close>

definition isWhiteSpace :: "char \<Rightarrow> bool" where
  "isWhiteSpace c = (of_char c \<in> {9, 10, 11, 12, 13, 32 :: nat})"

text \<open>An optional sign in front of a numeric literal: is it negative, and the rest.\<close>

fun takeSign :: "string \<Rightarrow> bool \<times> string" where
  "takeSign [] = (False, [])"
| "takeSign (c # r) =
     (if c = CHR ''-'' then (True, r) else if c = CHR ''+'' then (False, r) else (False, c # r))"

text \<open>
  The exponent part of a decimal literal: \<^verbatim>\<open>e\<close> or \<^verbatim>\<open>E\<close>, an optional sign and at least one
  digit; anything else is not part of the number and contributes exponent 0.
\<close>

fun exponentPart :: "string \<Rightarrow> int" where
  "exponentPart [] = 0"
| "exponentPart (c # r) =
     (if c = CHR ''e'' \<or> c = CHR ''E'' then
        (let (eneg, r') = takeSign r; ds = takeWhile isDigit r'
         in if ds = [] then 0
            else if eneg then - int (digitsVal ds) else int (digitsVal ds))
      else 0)"

definition pow10 :: "int \<Rightarrow> rat" where
  "pow10 e = (if 0 \<le> e then 10 ^ nat e else 1 / 10 ^ nat (- e))"

text \<open>
  \<^verbatim>\<open>parseFloat(string)\<close>: leading white space is skipped, then the longest prefix that is
  a decimal literal (\<^verbatim>\<open>Infinity\<close>, digits, optional fraction, optional exponent) is
  read; \<open>NaN\<close> when there is none.
\<close>

definition parseFloat :: "string \<Rightarrow> jsnum" where
  "parseFloat s =
     (let (neg, u) = takeSign (dropWhile isWhiteSpace s)
      in if take 8 u = ''Infinity'' then (if neg then NegInf else PosInf)
         else
           (let ip = takeWhile isDigit u;
                r1 = dropWhile isDigit u;
                (fp, r2) = (case r1 of
                              [] \<Rightarrow> ([], [])
                            | c # r \<Rightarrow> if c = CHR ''.''
                                       then (takeWhile isDigit r, dropWhile isDigit r)
                                       else ([], r1))
            in if ip = [] \<and> fp = [] then NaN
               else
                 (let mant = rat_of_nat (digitsVal (ip @ fp)) / 10 ^ length fp;
                      v = mant * pow10 (exponentPart r2)
                  in Fin (if neg then - v else v))))"

text \<open>
  \<^verbatim>\<open>parseInt(string, 10)\<close>: white space, an optional sign, then decimal digits; \<open>None\<close> is
  \<open>NaN\<close>.
\<close>

definition parseInt :: "string \<Rightarrow> int option" where
  "parseInt s =
     (let (neg, u) = takeSign (dropWhile isWhiteSpace s);
          ds = takeWhile isDigit u
      in if ds = [] then None
         else Some (if neg then - int (digitsVal ds) else int (digitsVal ds)))"

text \<open>\<^verbatim>\<open>String(n)\<close> for an integer-valued number.\<close>

fun showNat :: "nat \<Rightarrow> string" where
  "showNat n =
     (if n < 10 then [decimalDigits ! n]
      else showNat (n div 10) @ [decimalDigits ! (n mod 10)])"

declare showNat.simps [simp del]

definition showInt :: "int \<Rightarrow> string" where
  "showInt i = (if i < 0 then CHR ''-'' # showNat (nat (- i)) else showNat (nat i))"

text \<open>\<^verbatim>\<open>String(task.id)\<close>.\<close>

fun String_js :: "jsid \<Rightarrow> string" where
  "String_js (IdNum n) = showInt n"
| "String_js (IdStr s) = s"

text \<open>The comparison \<^verbatim>\<open>a >= b\<close> of two numbers: false as soon as one is \<open>NaN\<close>.\<close>

fun js_ge :: "jsnum \<Rightarrow> jsnum \<Rightarrow> bool" where
  "js_ge NaN _ = False"
| "js_ge _ NaN = False"
| "js_ge PosInf _ = True"
| "js_ge _ NegInf = True"
| "js_ge NegInf _ = False"
| "js_ge _ PosInf = False"
| "js_ge (Fin a) (Fin b) = (b \<le> a)"

text \<open>The difference \<^verbatim>\<open>a - b\<close> of two numbers.\<close>

fun js_minus :: "jsnum \<Rightarrow> jsnum \<Rightarrow> jsnum" where
  "js_minus NaN _ = NaN"
| "js_minus _ NaN = NaN"
| "js_minus PosInf PosInf = NaN"
| "js_minus NegInf NegInf = NaN"
| "js_minus PosInf _ = PosInf"
| "js_minus NegInf _ = NegInf"
| "js_minus (Fin a) PosInf = NegInf"
| "js_minus (Fin a) NegInf = PosInf"
| "js_minus (Fin a) (Fin b) = Fin (a - b)"

text \<open>Is a comparator result greater than zero?\<close>

fun js_positive :: "jsnum \<Rightarrow> bool" where
  "js_positive PosInf = True"
| "js_positive (Fin a) = (0 < a)"
| "js_positive _ = False"

section \<open>Data model\<close>

text \<open>
  A subtask object. A field the generator may leave out is an option; \<open>sub_id\<close> and
  \<open>sub_status\<close> are the two the engine assigns itself.
\<close>

record subtask =
  sub_id :: "jsid option"
  sub_title :: string
  sub_description :: string
  sub_details :: string
  sub_status :: "string option"

text \<open>A task object; \<open>subtasks = None\<close> is a task without the property.\<close>

record task =
  task_id :: jsid
  title :: string
  description :: string
  details :: string
  testStrategy :: string
  status :: string
  dependencies :: "jsid list"
  priority :: string
  subtasks :: "subtask list option"

record document =
  tasks :: "task list"
  metadata :: string

text \<open>One entry of \<^verbatim>\<open>complexityReport.complexityAnalysis\<close>.\<close>

record complexity_entry =
  entry_id :: jsid
  complexityScore :: rat
  justification :: string
  recommendExpansion :: bool

section \<open>Expansion planner: the target number of subtasks\<close>

text \<open>
  The value of \<^verbatim>\<open>targetNumSubtasks\<close> in \<^verbatim>\<open>generateSubtaskPrompt\<close>. \<open>numSubtasks = None\<close>
  is \<^verbatim>\<open>undefined\<close>; \<open>complexityReport = None\<close> is a report that is \<^verbatim>\<open>null\<close> or has no
  \<^verbatim>\<open>complexityAnalysis\<close>.
\<close>

definition targetNumSubtasks ::
  "task \<Rightarrow> int option \<Rightarrow> complexity_entry list option \<Rightarrow> int" where
  "targetNumSubtasks t numSubtasks complexityReport =
     (case numSubtasks of
        Some n \<Rightarrow> n
      | None \<Rightarrow>
          (case complexityReport of
             Some complexityAnalysis \<Rightarrow>
               (case find (\<lambda>a. entry_id a = task_id t) complexityAnalysis of
                  Some taskAnalysis \<Rightarrow>
                    if 8 \<le> complexityScore taskAnalysis
                    then max 3 (min 10 \<lceil>complexityScore taskAnalysis / (3 / 2)\<rceil>)
                    else 3
                | None \<Rightarrow> 3)
           | None \<Rightarrow> 5))"

text \<open>
  The resolution order in the words of the specification: the requested count; else the
  report entry for the task's id decides; else, with no such entry, the default 5.
\<close>

definition spec_targetCount ::
  "task \<Rightarrow> int option \<Rightarrow> complexity_entry list option \<Rightarrow> int" where
  "spec_targetCount t requestedCount complexityReport =
     (case requestedCount of
        Some n \<Rightarrow> n
      | None \<Rightarrow>
          (case find (\<lambda>a. entry_id a = task_id t)
                  (case complexityReport of Some r \<Rightarrow> r | None \<Rightarrow> []) of
             Some e \<Rightarrow>
               if 8 \<le> complexityScore e
               then max 3 (min 10 \<lceil>complexityScore e / (3 / 2)\<rceil>)
               else 3
           | None \<Rightarrow> 5))"

section \<open>Task store and result envelopes\<close>

text \<open>
  Modelled from the spec: \<^verbatim>\<open>readJSON\<close> and \<^verbatim>\<open>writeJSON\<close> of
  \<^verbatim>\<open>scripts/modules/utils.js\<close> are not among the sources. The Task Store loads a whole
  document from a path and saves by whole-document overwrite. The file system is a map
  from paths to documents; \<open>None\<close> is a path whose content is missing, unreadable or not
  an object with a \<^verbatim>\<open>tasks\<close> array, the case every caller tests right after reading.
\<close>

type_synonym files = "string \<rightharpoonup> document"

definition readJSON :: "files \<Rightarrow> string \<Rightarrow> document option" where
  "readJSON fs path = fs path"

definition writeJSON :: "string \<Rightarrow> document \<Rightarrow> files \<Rightarrow> files" where
  "writeJSON path d fs = fs(path \<mapsto> d)"

text \<open>The \<^verbatim>\<open>data\<close> of a success envelope, for the three shapes the direct functions return.\<close>

datatype api_data =
    Message string
  | SaveSummary string nat nat
  | Expanded "string option" task nat

text \<open>
  The envelope \<^verbatim>\<open>{ success, data | error: { code, message } }\<close>: \<open>Failure code message\<close>.
\<close>

datatype envelope = Success api_data | Failure string string

section \<open>A JavaScript Map with string keys\<close>

text \<open>
  Entries in insertion order. \<^verbatim>\<open>set\<close> on a key that is present replaces the value where
  the entry stands; on a new key it appends. \<^verbatim>\<open>has\<close>/\<^verbatim>\<open>get\<close> are \<open>map_of\<close>.
\<close>

type_synonym 'v jsmap = "(string \<times> 'v) list"

fun Map_set :: "string \<Rightarrow> 'v \<Rightarrow> 'v jsmap \<Rightarrow> 'v jsmap" where
  "Map_set k v [] = [(k, v)]"
| "Map_set k v (e # m) = (if fst e = k then (k, v) # m else e # Map_set k v m)"

definition Map_delete :: "string \<Rightarrow> 'v jsmap \<Rightarrow> 'v jsmap" where
  "Map_delete k m = filter (\<lambda>e. fst e \<noteq> k) m"

definition Map_values :: "'v jsmap \<Rightarrow> 'v list" where
  "Map_values m = map snd m"

section \<open>Reconciliation: \<^verbatim>\<open>saveUpdatedTasksDirect\<close>\<close>

text \<open>The key under which a task is indexed: \<^verbatim>\<open>String(task.id)\<close>.\<close>

definition taskIdStr :: "task \<Rightarrow> string" where
  "taskIdStr t = String_js (task_id t)"

text \<open>\<^verbatim>\<open>updatedTasks.forEach(task => updatedTasksMap.set(String(task.id), task))\<close>\<close>

definition updatedTasksMap :: "task list \<Rightarrow> task jsmap" where
  "updatedTasksMap updatedTasks = foldl (\<lambda>m t. Map_set (taskIdStr t) t m) [] updatedTasks"

text \<open>
  The \<^verbatim>\<open>existingTasksData.tasks.map(...)\<close> callback run over the tasks in order; the map
  of updates is threaded through, since the callback deletes the ids it consumes. The
  result is the mapped list and what is left of the map.
\<close>

fun mergeExisting :: "task list \<Rightarrow> task jsmap \<Rightarrow> task list \<times> task jsmap" where
  "mergeExisting [] m = ([], m)"
| "mergeExisting (t # ts) m =
     (case map_of m (taskIdStr t) of
        Some updatedTask \<Rightarrow>
          (let (rs, m') = mergeExisting ts (Map_delete (taskIdStr t) m)
           in (updatedTask # rs, m'))
      | None \<Rightarrow>
          (let (rs, m') = mergeExisting ts m in (t # rs, m')))"

text \<open>The comparator \<^verbatim>\<open>(a, b) => parseFloat(String(a.id)) - parseFloat(String(b.id))\<close>.\<close>

definition compareById :: "task \<Rightarrow> task \<Rightarrow> jsnum" where
  "compareById a b = js_minus (parseFloat (taskIdStr a)) (parseFloat (taskIdStr b))"

text \<open>\<^verbatim>\<open>order < 0\<close> for a comparator result; a result that is \<open>NaN\<close> counts as 0.\<close>

fun js_negative :: "jsnum \<Rightarrow> bool" where
  "js_negative NegInf = True"
| "js_negative (Fin a) = (a < 0)"
| "js_negative _ = False"

text \<open>Every id of the list parses to a number: the comparator is then a consistent order.\<close>

definition idsParse :: "task list \<Rightarrow> bool" where
  "idsParse xs = list_all (\<lambda>t. parseFloat (taskIdStr t) \<noteq> NaN) xs"

text \<open>
  The stable sort by that comparator, by insertion from the right: an element moves right
  only past elements it is strictly greater than.
\<close>

fun sort_insert :: "task \<Rightarrow> task list \<Rightarrow> task list" where
  "sort_insert x [] = [x]"
| "sort_insert x (y # ys) =
     (if js_positive (compareById x y) then y # sort_insert x ys else x # y # ys)"

definition stableSortById :: "task list \<Rightarrow> task list" where
  "stableSortById xs = foldr sort_insert xs []"

text \<open>
  What a JavaScript engine may do with an array whose comparator is not a consistent
  order: return the same elements in an order of its own. The engine is a parameter,
  \<open>engine xs\<close> being the array it returns for \<open>xs\<close>; a function that does not return a
  rearrangement of its argument is no engine and is ignored.
\<close>

definition arrange :: "(task list \<Rightarrow> task list) \<Rightarrow> task list \<Rightarrow> task list" where
  "arrange engine xs = (if mset (engine xs) = mset xs then engine xs else xs)"

text \<open>
  \<^verbatim>\<open>Array.prototype.sort\<close> with the comparator above. The language fixes the result when
  the comparator is a consistent order, which it is when every id parses to a number: the
  sort is stable, so the result is the one stable arrangement by numeric id. When an id
  does not parse, its comparisons give \<open>NaN\<close>, the comparator is in general not
  consistent, and the language leaves the order to the engine.
\<close>

definition js_sort :: "(task list \<Rightarrow> task list) \<Rightarrow> task list \<Rightarrow> task list" where
  "js_sort engine xs = (if idsParse xs then stableSortById xs else arrange engine xs)"

text \<open>\<^verbatim>\<open>mergedTasks\<close> as it is written back: leftovers appended and the list sorted.\<close>

definition mergedTasks ::
  "(task list \<Rightarrow> task list) \<Rightarrow> task list \<Rightarrow> task list \<Rightarrow> task list" where
  "mergedTasks engine existing updatedTasks =
     (let (rs, m') = mergeExisting existing (updatedTasksMap updatedTasks)
      in if m' \<noteq> [] then js_sort engine (rs @ Map_values m') else rs)"

definition missingArgsUpdated :: string where
  "missingArgsUpdated =
     ''Missing required arguments: tasksJsonPath, projectRoot, or updatedTasks array.''"

text \<open>
  \<^verbatim>\<open>saveUpdatedTasksDirect\<close>, run on a JavaScript engine \<open>engine\<close>. \<open>updatedTasks = None\<close>
  is an argument that is not an array; an empty path or project root is a missing one.
  The regeneration of the per-task files that follows the write is wrapped in its own
  \<^verbatim>\<open>try\<close>: its failure is logged and changes neither the result nor \<^verbatim>\<open>tasks.json\<close>, so it
  is not part of the state.
\<close>

definition saveUpdatedTasksDirect ::
  "(task list \<Rightarrow> task list) \<Rightarrow> string \<Rightarrow> string \<Rightarrow> task list option \<Rightarrow> files
     \<Rightarrow> envelope \<times> files" where
  "saveUpdatedTasksDirect engine tasksJsonPath projectRoot updatedTasks fs =
     (if tasksJsonPath = [] \<or> projectRoot = [] then
        (Failure ''MISSING_ARGS'' missingArgsUpdated, fs)
      else
        (case updatedTasks of
           None \<Rightarrow> (Failure ''MISSING_ARGS'' missingArgsUpdated, fs)
         | Some ups \<Rightarrow>
             (case readJSON fs tasksJsonPath of
                None \<Rightarrow>
                  (Failure ''SAVE_ERROR''
                     (''Failed to save updated tasks: '' @
                      ''Failed to read or parse existing tasks.json.''), fs)
              | Some existingTasksData \<Rightarrow>
                  (let finalTasksData =
                         existingTasksData\<lparr>tasks :=
                           mergedTasks engine (tasks existingTasksData) ups\<rparr>
                   in (Success (Message (''Successfully saved '' @ showNat (length ups) @
                                         '' updated tasks.'')),
                       writeJSON tasksJsonPath finalTasksData fs)))))"

section \<open>The order of the merged list\<close>

text \<open>\<open>idLe a b\<close>: the comparator does not put \<open>a\<close> after \<open>b\<close>.\<close>

definition idLe :: "task \<Rightarrow> task \<Rightarrow> bool" where
  "idLe a b = (\<not> js_positive (compareById a b))"

text \<open>
  The numbers other than \<open>NaN\<close> in their order, as pairs compared lexicographically; it
  relates the sort above to the library's stable sort.
\<close>

fun idRank :: "jsnum \<Rightarrow> nat \<times> rat" where
  "idRank NegInf = (0, 0)"
| "idRank (Fin a) = (1, a)"
| "idRank PosInf = (2, 0)"
| "idRank NaN = (3, 0)"

definition taskRank :: "task \<Rightarrow> nat \<times> rat" where
  "taskRank t = idRank (parseFloat (taskIdStr t))"

section \<open>The sort of Node.js on short arrays\<close>

text \<open>
  The engine the server runs on is V8. For an array of fewer than 64 elements its
  \<^verbatim>\<open>Array.prototype.sort\<close> takes the longest run at the start of the array, ascending (each
  element not less than the one before) or strictly descending (then reversed), and
  inserts the remaining elements one by one, each at the place a binary search finds in
  the part already in order. It is used below as one engine, on an array with an id that
  does not parse.
\<close>

text \<open>
  How many further elements continue the run: a descending run goes on while
  \<^verbatim>\<open>order < 0\<close>, an ascending one while not \<^verbatim>\<open>order < 0\<close>, where \<^verbatim>\<open>order\<close> compares the
  element with the one before it.
\<close>

fun extendRun :: "bool \<Rightarrow> task \<Rightarrow> task list \<Rightarrow> nat" where
  "extendRun isDescending previousElement [] = 0"
| "extendRun isDescending previousElement (currentElement # rest) =
     (if isDescending = js_negative (compareById currentElement previousElement)
      then 1 + extendRun isDescending currentElement rest
      else 0)"

text \<open>The length of the first run and whether it is descending.\<close>

fun countRun :: "task list \<Rightarrow> nat \<times> bool" where
  "countRun (elementHigh # elementLow # rest) =
     (let isDescending = js_negative (compareById elementLow elementHigh)
      in (2 + extendRun isDescending elementLow rest, isDescending))"
| "countRun xs = (length xs, False)"

text \<open>
  The binary search: \<^verbatim>\<open>order = compare(pivot, workArray[mid])\<close>; \<^verbatim>\<open>order < 0\<close> moves
  \<^verbatim>\<open>right\<close> to \<^verbatim>\<open>mid\<close>, anything else moves \<^verbatim>\<open>left\<close> to \<^verbatim>\<open>mid + 1\<close>.
\<close>

function binarySearch :: "task \<Rightarrow> task list \<Rightarrow> nat \<Rightarrow> nat \<Rightarrow> nat" where
  "binarySearch pivot workArray left right =
     (if left < right then
        (if js_negative (compareById pivot (workArray ! (left + (right - left) div 2)))
         then binarySearch pivot workArray left (left + (right - left) div 2)
         else binarySearch pivot workArray (left + (right - left) div 2 + 1) right)
      else left)"
  by pat_completeness auto
termination
  by (relation "measure (\<lambda>(pivot, workArray, left, right). right - left)") auto

declare binarySearch.simps [simp del]

text \<open>The array with \<open>pivot\<close> put in at index \<open>left\<close>, the elements from there on moved up.\<close>

definition insertAt :: "nat \<Rightarrow> task \<Rightarrow> task list \<Rightarrow> task list" where
  "insertAt left pivot workArray = take left workArray @ pivot # drop left workArray"

text \<open>
  The elements from index \<open>start\<close> on, inserted in turn into the part before \<open>start\<close>,
  which is in order.
\<close>

fun binaryInsertionSort :: "nat \<Rightarrow> task list \<Rightarrow> task list \<Rightarrow> task list" where
  "binaryInsertionSort start inOrder [] = inOrder"
| "binaryInsertionSort start inOrder (pivot # rest) =
     binaryInsertionSort (start + 1)
       (insertAt (binarySearch pivot inOrder 0 start) pivot inOrder) rest"

definition v8_sort :: "task list \<Rightarrow> task list" where
  "v8_sort xs =
     (case countRun xs of
        (runLength, isDescending) \<Rightarrow>
          binaryInsertionSort runLength
            (if isDescending then rev (take runLength xs) else take runLength xs)
            (drop runLength xs))"

section \<open>The external generator\<close>

text \<open>
  The prompt builder, the client's language model and the JSON parser are outside the
  engine; one round through them is represented by its outcome: no prompt, a sampling
  call that throws (with its message), an empty completion, a completion from which no
  array of subtasks is parsed, or the parsed array.
\<close>

datatype generation =
    PromptFailed
  | SamplingError string
  | EmptyCompletion
  | Unparseable
  | Generated "subtask list"

section \<open>Expansion of one task: \<^verbatim>\<open>expandTaskDirect\<close>\<close>

text \<open>\<^verbatim>\<open>task.subtasks && task.subtasks.length > 0\<close>\<close>

definition hasSubtasks :: "task \<Rightarrow> bool" where
  "hasSubtasks t = (case subtasks t of Some (x # xs) \<Rightarrow> True | _ \<Rightarrow> False)"

text \<open>\<^verbatim>\<open>task.subtasks?.length || 0\<close>\<close>

definition subtasksLength :: "task \<Rightarrow> nat" where
  "subtasksLength t = (case subtasks t of Some xs \<Rightarrow> length xs | None \<Rightarrow> 0)"

text \<open>\<^verbatim>\<open>task.status === 'done' || task.status === 'completed'\<close>\<close>

definition isCompleted :: "string \<Rightarrow> bool" where
  "isCompleted st = (st = ''done'' \<or> st = ''completed'')"

text \<open>\<^verbatim>\<open>data.tasks.findIndex(pred)\<close>; \<open>None\<close> is the result -1.\<close>

fun findIndex :: "('a \<Rightarrow> bool) \<Rightarrow> 'a list \<Rightarrow> nat option" where
  "findIndex P [] = None"
| "findIndex P (x # xs) = (if P x then Some 0 else map_option Suc (findIndex P xs))"

text \<open>\<^verbatim>\<open>subtask.status || 'pending'\<close>: a missing or empty status is falsy.\<close>

definition statusOrPending :: "string option \<Rightarrow> string" where
  "statusOrPending st = (case st of None \<Rightarrow> ''pending'' | Some v \<Rightarrow> if v = [] then ''pending'' else v)"

text \<open>
  The \<^verbatim>\<open>forEach\<close> that assigns \<^verbatim>\<open>subtask.id = nextSubtaskId + index\<close> and the default
  status.
\<close>

definition assignIds :: "nat \<Rightarrow> subtask list \<Rightarrow> subtask list" where
  "assignIds nextSubtaskId newSubtasks =
     map (\<lambda>(index, subtask).
            subtask\<lparr>sub_id := Some (IdNum (int (nextSubtaskId + index))),
                    sub_status := Some (statusOrPending (sub_status subtask))\<rparr>)
         (enumerate 0 newSubtasks)"

definition samplingErrorCode :: string where
  "samplingErrorCode = ''EXPAND_TASK_SAMPLING_ERROR''"

text \<open>
  \<^verbatim>\<open>expandTaskDirect\<close>. Arguments: the path, the \<^verbatim>\<open>id\<close> string, the \<^verbatim>\<open>force\<close> flag
  (\<^verbatim>\<open>force === true\<close>), whether \<^verbatim>\<open>session.requestSampling\<close> is a function, the outcome of
  the generator, and the message thrown by \<^verbatim>\<open>generateTaskFiles\<close> if it throws. Every
  \<^verbatim>\<open>throw\<close> inside the outer \<^verbatim>\<open>try\<close> becomes the \<open>EXPAND_TASK_SAMPLING_ERROR\<close> envelope.
  \<^verbatim>\<open>generateTaskFiles\<close> runs after the write, in a \<^verbatim>\<open>try\<close>/\<^verbatim>\<open>finally\<close> without \<^verbatim>\<open>catch\<close>.
  The requested count and the complexity report only enter the prompt text (see
  \<open>targetNumSubtasks\<close>), which is never empty.
\<close>

definition expandTaskDirect ::
  "string \<Rightarrow> string \<Rightarrow> bool \<Rightarrow> bool \<Rightarrow> generation \<Rightarrow> string option \<Rightarrow> files
     \<Rightarrow> envelope \<times> files" where
  "expandTaskDirect tasksJsonPath idArg forceFlag samplingAvailable gen regenError fs =
     (if tasksJsonPath = [] then
        (Failure ''MISSING_ARGUMENT'' ''tasksJsonPath is required'', fs)
      else
        (case (if idArg = [] then None else parseInt idArg) of
           None \<Rightarrow> (Failure ''INPUT_VALIDATION_ERROR'' ''Task ID is required'', fs)
         | Some taskId \<Rightarrow>
             if taskId = 0 then
               (Failure ''INPUT_VALIDATION_ERROR'' ''Task ID is required'', fs)
             else if \<not> samplingAvailable then
               (Failure ''SAMPLING_UNAVAILABLE''
                  ''FastMCP sampling function (session.requestSampling) is not available.'', fs)
             else
               (case readJSON fs tasksJsonPath of
                  None \<Rightarrow>
                    (Failure ''INVALID_TASKS_FILE''
                       (''Invalid or missing tasks data in '' @ tasksJsonPath), fs)
                | Some data \<Rightarrow>
                    (case findIndex (\<lambda>t. task_id t = IdNum taskId) (tasks data) of
                       None \<Rightarrow>
                         (Failure ''TASK_NOT_FOUND''
                            (''Task with ID '' @ showInt taskId @ '' not found''), fs)
                     | Some taskIndex \<Rightarrow>
                         (let t = tasks data ! taskIndex in
                          if status t = ''done'' \<or> status t = ''completed'' then
                            (Failure ''TASK_COMPLETED''
                               (''Task '' @ showInt taskId @ '' is already completed''), fs)
                          else if hasSubtasks t \<and> \<not> forceFlag then
                            (Success (Expanded
                               (Some (''Task '' @ showInt taskId @
                                      '' already has subtasks. Skipped.'')) t 0), fs)
                          else
                            (let t1 = (if hasSubtasks t \<and> forceFlag
                                       then t\<lparr>subtasks := Some []\<rparr> else t)
                             in case gen of
                                  PromptFailed \<Rightarrow>
                                    (Failure samplingErrorCode
                                       ''Failed to generate the prompt for subtask expansion.'', fs)
                                | SamplingError msg \<Rightarrow>
                                    (Failure samplingErrorCode
                                       (''Failed to get completion via sampling: '' @ msg), fs)
                                | EmptyCompletion \<Rightarrow>
                                    (Failure samplingErrorCode
                                       (''Failed to get completion via sampling: '' @
                                        ''Received empty completion text from client LLM via sampling.''),
                                     fs)
                                | Unparseable \<Rightarrow>
                                    (Failure samplingErrorCode
                                       (''Failed to parse subtasks from LLM completion: '' @
                                        ''Parsing did not return a valid array of subtasks.''), fs)
                                | Generated newSubtasks \<Rightarrow>
                                    (let nextSubtaskId = subtasksLength t1 + 1;
                                         t2 = t1\<lparr>subtasks :=
                                                  Some (assignIds nextSubtaskId newSubtasks)\<rparr>;
                                         data' = data\<lparr>tasks := (tasks data)[taskIndex := t2]\<rparr>;
                                         fs' = writeJSON tasksJsonPath data' fs
                                     in case regenError of
                                          Some msg \<Rightarrow>
                                            (Failure samplingErrorCode
                                               (if msg = []
                                                then ''Unknown error during task expansion via sampling''
                                                else msg), fs')
                                        | None \<Rightarrow>
                                            (Success (Expanded None t2 (length newSubtasks)),
                                             fs'))))))))"

section \<open>Saving subtasks of several tasks: \<^verbatim>\<open>saveMultipleTaskSubtasksDirect\<close>\<close>

text \<open>One element of \<^verbatim>\<open>subtaskUpdates\<close>; \<open>upd_subtasks = None\<close> is a missing array.\<close>

record subtask_update =
  taskId :: jsid
  upd_subtasks :: "subtask list option"

text \<open>\<^verbatim>\<open>subtasks.map((sub, index) => ({ ...sub, id: index + 1 }))\<close>\<close>

definition renumber :: "subtask list \<Rightarrow> subtask list" where
  "renumber subs =
     map (\<lambda>(index, sub). sub\<lparr>sub_id := Some (IdNum (int index + 1))\<rparr>) (enumerate 0 subs)"

text \<open>
  \<^verbatim>\<open>new Map(tasks.map((task, index) => [String(task.id), { task, index }]))\<close>. The entry
  holds the task object itself; the loop below mutates that object and stores it back at
  its own index, so the object of an entry is always the element of the working array at
  the entry's index, and the model keeps the index alone.
\<close>

definition taskMap :: "task list \<Rightarrow> nat jsmap" where
  "taskMap ts =
     foldl (\<lambda>m (index, t). Map_set (taskIdStr t) index m) [] (enumerate 0 ts)"

text \<open>
  The \<^verbatim>\<open>for (const update of subtaskUpdates)\<close> loop over the working array, with the two
  counters. \<open>Inl\<close> is the \<^verbatim>\<open>TypeError\<close> of calling \<^verbatim>\<open>map\<close> on a missing \<^verbatim>\<open>subtasks\<close>.
\<close>

fun saveLoop ::
  "nat jsmap \<Rightarrow> bool \<Rightarrow> subtask_update list \<Rightarrow> task list \<Rightarrow> nat \<Rightarrow> nat
     \<Rightarrow> string + (task list \<times> nat \<times> nat)" where
  "saveLoop tm force [] ts updatedCount skippedCount = Inr (ts, updatedCount, skippedCount)"
| "saveLoop tm force (update # rest) ts updatedCount skippedCount =
     (case map_of tm (String_js (taskId update)) of
        None \<Rightarrow> saveLoop tm force rest ts updatedCount (skippedCount + 1)
      | Some parentTaskIndex \<Rightarrow>
          (let parentTask = ts ! parentTaskIndex in
           if hasSubtasks parentTask \<and> \<not> force then
             saveLoop tm force rest ts updatedCount (skippedCount + 1)
           else
             (case upd_subtasks update of
                None \<Rightarrow> Inl ''Cannot read properties of undefined (reading map)''
              | Some subs \<Rightarrow>
                  saveLoop tm force rest
                    (ts[parentTaskIndex := parentTask\<lparr>subtasks := Some (renumber subs)\<rparr>])
                    (updatedCount + 1) skippedCount)))"

definition missingArgsMulti :: string where
  "missingArgsMulti =
     ''Missing required arguments: tasksJsonPath, projectRoot, or subtaskUpdates array.''"

definition savedMessage :: "nat \<Rightarrow> nat \<Rightarrow> string" where
  "savedMessage updatedCount skippedCount =
     ''Successfully saved subtask updates for '' @ showNat updatedCount @
     '' tasks. Skipped '' @ showNat skippedCount @ ''.''"

text \<open>
  \<^verbatim>\<open>saveMultipleTaskSubtasksDirect\<close>; \<open>subtaskUpdates = None\<close> is an argument that is not
  an array. The regeneration of task files after the write is in its own \<^verbatim>\<open>try\<close>/\<^verbatim>\<open>catch\<close>.
\<close>

definition saveMultipleTaskSubtasksDirect ::
  "string \<Rightarrow> string \<Rightarrow> subtask_update list option \<Rightarrow> bool \<Rightarrow> files \<Rightarrow> envelope \<times> files" where
  "saveMultipleTaskSubtasksDirect tasksJsonPath projectRoot subtaskUpdates force fs =
     (if tasksJsonPath = [] \<or> projectRoot = [] then
        (Failure ''MISSING_ARGS'' missingArgsMulti, fs)
      else
        (case subtaskUpdates of
           None \<Rightarrow> (Failure ''MISSING_ARGS'' missingArgsMulti, fs)
         | Some ups \<Rightarrow>
             (case readJSON fs tasksJsonPath of
                None \<Rightarrow>
                  (Failure ''SAVE_MULTI_SUBTASK_ERROR''
                     (''Failed to save multiple subtasks: '' @
                      ''Failed to read or parse existing tasks.json.''), fs)
              | Some existingTasksData \<Rightarrow>
                  (case saveLoop (taskMap (tasks existingTasksData)) force ups
                          (tasks existingTasksData) 0 0 of
                     Inl msg \<Rightarrow>
                       (Failure ''SAVE_MULTI_SUBTASK_ERROR''
                          (''Failed to save multiple subtasks: '' @ msg), fs)
                   | Inr (ts, updatedCount, skippedCount) \<Rightarrow>
                       (Success (SaveSummary (savedMessage updatedCount skippedCount)
                                   updatedCount skippedCount),
                        writeJSON tasksJsonPath (existingTasksData\<lparr>tasks := ts\<rparr>) fs)))))"

section \<open>The range filter of the \<^verbatim>\<open>update\<close> tool\<close>

text \<open>
  \<^verbatim>\<open>tasksToUpdateContext\<close> in \<^verbatim>\<open>registerUpdateTool\<close>: \<^verbatim>\<open>parseFloat(args.from)\<close>, then the
  filter \<^verbatim>\<open>!isNaN(taskIdNum) && taskIdNum >= fromIdNum && task.status !== 'done'\<close>.
\<close>

definition tasksToUpdateContext :: "string \<Rightarrow> task list \<Rightarrow> task list" where
  "tasksToUpdateContext fromArg ts =
     (let fromIdNum = parseFloat fromArg
      in filter (\<lambda>t. let taskIdNum = parseFloat (String_js (task_id t))
                      in taskIdNum \<noteq> NaN \<and> js_ge taskIdNum fromIdNum \<and> status t \<noteq> ''done'')
                ts)"

section \<open>The batch coordinator: the \<^verbatim>\<open>expand_all\<close> tool\<close>

text \<open>
  What a tool's \<^verbatim>\<open>execute\<close> returns. \<^verbatim>\<open>handleApiResult\<close> and \<^verbatim>\<open>createErrorResponse\<close> are
  imported from \<^verbatim>\<open>tools/utils.js\<close>, which is not among the sources; they are kept as the
  two constructors: an envelope handed to \<^verbatim>\<open>handleApiResult\<close>, or an error response
  made from a message.
\<close>

datatype tool_response = ApiResult envelope | ErrorResponse string

text \<open>
  The filter that selects \<^verbatim>\<open>tasksToExpand\<close>:
  \<^verbatim>\<open>task.status === 'pending' && (!task.subtasks || task.subtasks.length === 0 || args.force)\<close>
\<close>

definition eligible :: "bool \<Rightarrow> task \<Rightarrow> bool" where
  "eligible force t = (status t = ''pending'' \<and> (\<not> hasSubtasks t \<or> force))"

text \<open>
  The loop of \<^verbatim>\<open>tools/expand-all.js\<close>. The generator's outcome for the task at position
  \<open>i\<close> of \<^verbatim>\<open>tasksToExpand\<close> is \<open>sample i task\<close>. The first statement of the body reads
  the identifier \<^verbatim>\<open>complexityReport\<close>, which the module neither imports nor declares:
  \<open>cr = None\<close> is the module as it is, where the read throws a \<^verbatim>\<open>ReferenceError\<close>
  (\<open>Inl\<close>, caught by the outer \<^verbatim>\<open>catch\<close> of \<^verbatim>\<open>execute\<close>); \<open>cr = Some r\<close> is an
  environment that binds the name globally. The report only enters the prompt.
\<close>

fun expandLoop ::
  "'r option \<Rightarrow> (nat \<Rightarrow> task \<Rightarrow> generation) \<Rightarrow> nat \<Rightarrow> task list
     \<Rightarrow> subtask_update list \<Rightarrow> nat \<Rightarrow> string + (subtask_update list \<times> nat)" where
  "expandLoop cr sample i [] results failedCount = Inr (results, failedCount)"
| "expandLoop cr sample i (t # ts) results failedCount =
     (case cr of
        None \<Rightarrow> Inl ''complexityReport is not defined''
      | Some complexityReport \<Rightarrow>
          (case sample i t of
             Generated subs \<Rightarrow>
               expandLoop cr sample (i + 1) ts
                 (results @ [\<lparr>taskId = task_id t, upd_subtasks = Some subs\<rparr>]) failedCount
           | _ \<Rightarrow> expandLoop cr sample (i + 1) ts results (failedCount + 1)))"

text \<open>
  \<^verbatim>\<open>execute\<close> of \<^verbatim>\<open>tools/expand-all.js\<close>. \<open>rootFolder\<close> is empty when no project root is
  found; \<open>findPath\<close> is the outcome of \<^verbatim>\<open>findTasksJsonPath\<close>, the message it throws or the
  path; \<open>force\<close> is \<^verbatim>\<open>args.force\<close>. Reading \<^verbatim>\<open>.tasks\<close> of a document that was not read
  is a \<^verbatim>\<open>TypeError\<close> for the outer \<^verbatim>\<open>catch\<close>.
\<close>

definition internalError :: "string \<Rightarrow> tool_response" where
  "internalError msg =
     ErrorResponse (''Internal server error during expand all tasks: '' @ msg)"

definition expand_all_execute ::
  "string \<Rightarrow> string + string \<Rightarrow> bool \<Rightarrow> 'r option \<Rightarrow> (nat \<Rightarrow> task \<Rightarrow> generation) \<Rightarrow> files
     \<Rightarrow> tool_response \<times> files" where
  "expand_all_execute rootFolder findPath force cr sample fs =
     (if rootFolder = [] then (ErrorResponse ''Could not determine project root.'', fs)
      else
        (case findPath of
           Inl msg \<Rightarrow> (ErrorResponse (''Failed to find or read tasks.json: '' @ msg), fs)
         | Inr tasksJsonPath \<Rightarrow>
             (case readJSON fs tasksJsonPath of
                None \<Rightarrow> (internalError ''Cannot read properties of null (reading tasks)'', fs)
              | Some existingTasksData \<Rightarrow>
                  (let tasksToExpand = filter (eligible force) (tasks existingTasksData) in
                   if tasksToExpand = [] then
                     (ApiResult (Success (Message
                        ''No pending tasks eligible for expansion found.'')), fs)
                   else
                     (case expandLoop cr sample 0 tasksToExpand [] 0 of
                        Inl msg \<Rightarrow> (internalError msg, fs)
                      | Inr (results, failedCount) \<Rightarrow>
                          if results = [] then
                            (ApiResult (Success (Message
                               (if 0 < failedCount
                                then ''Expansion failed for all '' @ showNat failedCount @
                                     '' eligible tasks.''
                                else ''No tasks eligible for expansion were found.''))), fs)
                          else
                            (let (saveResult, fs') =
                                   saveMultipleTaskSubtasksDirect tasksJsonPath rootFolder
                                     (Some results) force fs
                             in (ApiResult saveResult, fs')))))))"

text \<open>
  The other copy of the tool among the sources (\<^verbatim>\<open>part_000\<close>): its loop has no read of
  \<^verbatim>\<open>complexityReport\<close> and no failure counter; it collects
  \<^verbatim>\<open>{ parentTaskId, subtasks }\<close>.
\<close>

fun expandLoop_part_000 ::
  "(nat \<Rightarrow> task \<Rightarrow> generation) \<Rightarrow> nat \<Rightarrow> task list \<Rightarrow> (jsid \<times> subtask list) list
     \<Rightarrow> (jsid \<times> subtask list) list" where
  "expandLoop_part_000 sample i [] allSubtaskUpdates = allSubtaskUpdates"
| "expandLoop_part_000 sample i (parentTask # ts) allSubtaskUpdates =
     (case sample i parentTask of
        Generated newSubtasks \<Rightarrow>
          expandLoop_part_000 sample (i + 1) ts
            (allSubtaskUpdates @ [(task_id parentTask, newSubtasks)])
      | _ \<Rightarrow> expandLoop_part_000 sample (i + 1) ts allSubtaskUpdates)"

text \<open>
  Its \<^verbatim>\<open>execute\<close>. The save arguments are built with the key \<^verbatim>\<open>updates\<close>, so
  \<^verbatim>\<open>saveMultipleTaskSubtasksDirect\<close> receives no \<^verbatim>\<open>subtaskUpdates\<close>.
\<close>

definition expand_all_execute_part_000 ::
  "string \<Rightarrow> string + string \<Rightarrow> bool \<Rightarrow> (nat \<Rightarrow> task \<Rightarrow> generation) \<Rightarrow> files
     \<Rightarrow> tool_response \<times> files" where
  "expand_all_execute_part_000 rootFolder findPath force sample fs =
     (if rootFolder = [] then (ErrorResponse ''Could not determine project root.'', fs)
      else
        (case findPath of
           Inl msg \<Rightarrow> (ErrorResponse (''Failed to find or read tasks.json: '' @ msg), fs)
         | Inr tasksJsonPath \<Rightarrow>
             (case readJSON fs tasksJsonPath of
                None \<Rightarrow> (internalError ''Cannot read properties of null (reading tasks)'', fs)
              | Some existingTasksData \<Rightarrow>
                  (let tasksToExpand = filter (eligible force) (tasks existingTasksData) in
                   if tasksToExpand = [] then
                     (ApiResult (Success (Message
                        ''No pending tasks eligible for expansion found.'')), fs)
                   else
                     (let allSubtaskUpdates = expandLoop_part_000 sample 0 tasksToExpand [] in
                      if allSubtaskUpdates = [] then
                        (ApiResult (Success (Message
                           ''No tasks were successfully expanded.'')), fs)
                      else
                        (let (result, fs') =
                               saveMultipleTaskSubtasksDirect tasksJsonPath rootFolder None force fs
                         in (ApiResult result, fs')))))))"

section \<open>The numbering invariant\<close>

text \<open>
  The subtask ids of one parent are the run \<open>1..N\<close>: the subtask at index \<open>i\<close> has the
  number \<open>i + 1\<close> as its id.
\<close>

definition contiguousIds :: "subtask list \<Rightarrow> bool" where
  "contiguousIds subs =
     (map sub_id subs = map (\<lambda>i. Some (IdNum (int i + 1))) [0..<length subs])"

text \<open>The subtask list of a task, empty for a task without the property.\<close>

definition subtasksOf :: "task \<Rightarrow> subtask list" where
  "subtasksOf t = (case subtasks t of Some xs \<Rightarrow> xs | None \<Rightarrow> [])"

definition allContiguous :: "task list \<Rightarrow> bool" where
  "allContiguous ts = list_all (\<lambda>t. contiguousIds (subtasksOf t)) ts"

text \<open>The tasks of the document stored at a path; none when there is no document.\<close>

definition storedTasks :: "files \<Rightarrow> string \<Rightarrow> task list" where
  "storedTasks fs path = (case readJSON fs path of Some d \<Rightarrow> tasks d | None \<Rightarrow> [])"

text \<open>A pending task with no subtasks, and report entries, used as concrete inputs.\<close>

definition plainTask :: "int \<Rightarrow> string \<Rightarrow> subtask list option \<Rightarrow> task" where
  "plainTask n st subs =
     \<lparr>task_id = IdNum n, title = ''t'', description = ''d'', details = '''',
      testStrategy = '''', status = st, dependencies = [], priority = ''medium'',
      subtasks = subs\<rparr>"


definition scoreEntry :: "int \<Rightarrow> rat \<Rightarrow> complexity_entry" where
  "scoreEntry n sc =
     \<lparr>entry_id = IdNum n, complexityScore = sc, justification = '''',
      recommendExpansion = (8 \<le> sc)\<rparr>"

text \<open>Concrete inputs: subtasks, documents and a file system with one tasks file.\<close>

definition plainSub :: "jsid option \<Rightarrow> string option \<Rightarrow> subtask" where
  "plainSub i st =
     \<lparr>sub_id = i, sub_title = ''s'', sub_description = ''d'', sub_details = '''',
      sub_status = st\<rparr>"

definition docOf :: "task list \<Rightarrow> document" where
  "docOf ts = \<lparr>tasks = ts, metadata = ''''\<rparr>"

definition oneFile :: "document \<Rightarrow> files" where
  "oneFile d = Map.empty(''tasks.json'' \<mapsto> d)"

section \<open>Properties of the target count\<close>

text \<open>
  C6 (as the claim states it, refuted): with a complexity report that has no entry for the
  task, the claim's order gives the default 5, the code gives 3.
\<close>

theorem C6_counterexample:
  "targetNumSubtasks (plainTask 3 ''pending'' None) None (Some [scoreEntry 4 9])
     \<noteq> spec_targetCount (plainTask 3 ''pending'' None) None (Some [scoreEntry 4 9])"
  by (simp add: targetNumSubtasks_def spec_targetCount_def plainTask_def scoreEntry_def)

text \<open>
  C6 (amended): the requested count wins; without one, a report decides: an entry for the
  task's id with score at least 8 gives \<open>clamp(ceil(score / 1.5), 3, 10)\<close>, a lower score
  or a report without an entry for the task gives 3; only without any report the default
  is 5.
\<close>

theorem C6_target_resolution:
  "targetNumSubtasks t (Some n) r = n \<and>
   targetNumSubtasks t None None = 5 \<and>
   (\<forall>e. find (\<lambda>a. entry_id a = task_id t) as = Some e \<longrightarrow>
        targetNumSubtasks t None (Some as) =
          (if 8 \<le> complexityScore e
           then max 3 (min 10 \<lceil>complexityScore e / (3 / 2)\<rceil>) else 3)) \<and>
   (find (\<lambda>a. entry_id a = task_id t) as = None \<longrightarrow>
        targetNumSubtasks t None (Some as) = 3)"
  by (simp add: targetNumSubtasks_def)

theorem C6_target_resolution_witness:
  "targetNumSubtasks (plainTask 3 ''pending'' None) (Some 4) (Some [scoreEntry 3 9]) = 4 \<and>
   targetNumSubtasks (plainTask 3 ''pending'' None) None None = 5 \<and>
   find (\<lambda>a. entry_id a = task_id (plainTask 3 ''pending'' None))
     [scoreEntry 4 2, scoreEntry 3 10] = Some (scoreEntry 3 10) \<and>
   targetNumSubtasks (plainTask 3 ''pending'' None) None
     (Some [scoreEntry 4 2, scoreEntry 3 10]) = 7 \<and>
   find (\<lambda>a. entry_id a = task_id (plainTask 3 ''pending'' None)) [scoreEntry 4 9] = None \<and>
   targetNumSubtasks (plainTask 3 ''pending'' None) None (Some [scoreEntry 4 9]) = 3"
  using C6_target_resolution [of "plainTask 3 ''pending'' None" 4 "Some [scoreEntry 3 9]"
      "[scoreEntry 4 2, scoreEntry 3 10]"]
    C6_target_resolution [of "plainTask 3 ''pending'' None" 4 "Some [scoreEntry 3 9]"
      "[scoreEntry 4 9]"]
  by (simp add: plainTask_def scoreEntry_def ceiling_eq_iff)

section \<open>Evaluation of the helpers at the inputs used below\<close>

lemma parseInt_1: "parseInt ''1'' = Some 1"
  by code_simp

lemma showInt_1: "showInt 1 = ''1''"
  by code_simp

lemma showInt_2: "showInt 2 = ''2''"
  by code_simp

lemma showInt_3: "showInt 3 = ''3''"
  by code_simp

lemma showInt_5: "showInt 5 = ''5''"
  by code_simp

lemma showInt_7: "showInt 7 = ''7''"
  by code_simp

lemma showInt_8: "showInt 8 = ''8''"
  by code_simp

lemma showInt_9: "showInt 9 = ''9''"
  by code_simp

lemma parseFloat_3: "parseFloat ''3'' = Fin 3"
  by code_simp

lemma parseFloat_5: "parseFloat ''5'' = Fin 5"
  by code_simp

lemma parseFloat_9: "parseFloat ''9'' = Fin 9"
  by code_simp

lemma parseInt_Nil: "parseInt [] = None"
  by code_simp


lemma showInt_4: "showInt 4 = ''4''"
  by code_simp



lemma parseFloat_1: "parseFloat ''1'' = Fin 1"
  by code_simp


lemma parseFloat_4: "parseFloat ''4'' = Fin 4"
  by code_simp




lemma taskIdStr_plainTask: "taskIdStr (plainTask n st subs) = showInt n"
  by (simp add: taskIdStr_def plainTask_def)





section \<open>Properties of the reconciliation merge\<close>

lemma mergeExisting_Nil: "mergeExisting ts [] = (ts, [])"
  by (induction ts) auto

lemma mergedTasks_empty_batch: "mergedTasks engine ts [] = ts"
  by (simp add: mergedTasks_def updatedTasksMap_def mergeExisting_Nil)

text \<open>
  C8: an \<open>updatedTasks\<close> argument that is not an array is refused with the structured error
  \<open>MISSING_ARGS\<close> and the files are left as they were, whatever the other arguments; an
  empty array, with path and project root given and a readable document, is a success
  whose write stores the document as it was.
\<close>

theorem C8_merge_argument_errors:
  "saveUpdatedTasksDirect engine p r None fs
     = (Failure ''MISSING_ARGS'' missingArgsUpdated, fs) \<and>
   (p \<noteq> [] \<and> r \<noteq> [] \<and> readJSON fs p = Some d \<longrightarrow>
      saveUpdatedTasksDirect engine p r (Some []) fs =
        (Success (Message ''Successfully saved 0 updated tasks.''), fs) \<and>
      readJSON (snd (saveUpdatedTasksDirect engine p r (Some []) fs)) p = Some d)"
proof -
  have upd: "fs(p \<mapsto> d) = fs" if "fs p = Some d"
    using that by (rule map_upd_triv)
  have "showNat 0 = ''0''"
    by (simp add: showNat.simps decimalDigits_def)
  then show ?thesis
    by (auto simp: saveUpdatedTasksDirect_def readJSON_def writeJSON_def
        mergedTasks_empty_batch upd)
qed

theorem C8_merge_argument_errors_witness:
  "''tasks.json'' \<noteq> [] \<and> ''/proj'' \<noteq> [] \<and>
   readJSON (oneFile (docOf [plainTask 1 ''pending'' None])) ''tasks.json''
     = Some (docOf [plainTask 1 ''pending'' None]) \<and>
   saveUpdatedTasksDirect v8_sort ''tasks.json'' ''/proj'' None
       (oneFile (docOf [plainTask 1 ''pending'' None]))
     = (Failure ''MISSING_ARGS'' missingArgsUpdated, oneFile (docOf [plainTask 1 ''pending'' None])) \<and>
   saveUpdatedTasksDirect v8_sort ''tasks.json'' ''/proj'' (Some [])
       (oneFile (docOf [plainTask 1 ''pending'' None]))
     = (Success (Message ''Successfully saved 0 updated tasks.''),
        oneFile (docOf [plainTask 1 ''pending'' None]))"
  using C8_merge_argument_errors [of v8_sort "''tasks.json''" "''/proj''"
      "oneFile (docOf [plainTask 1 ''pending'' None])" "docOf [plainTask 1 ''pending'' None]"]
  by (simp add: readJSON_def oneFile_def)

section \<open>Properties of the expansion of one task\<close>

lemma storedTasks_writeJSON: "storedTasks (writeJSON p d fs) p = tasks d"
  by (simp add: storedTasks_def readJSON_def writeJSON_def)

text \<open>
  When \<^verbatim>\<open>expandTaskDirect\<close> writes at all, it writes the document it read with one task
  replaced: the task its lookup found, which is then neither \<open>done\<close> nor \<open>completed\<close> and
  has subtasks only if \<open>force\<close> is set.
\<close>

lemma expandTaskDirect_written:
  "snd (expandTaskDirect p idArg force sa gen regen fs) = fs \<or>
   (\<exists>d n i t'. readJSON fs p = Some d \<and> parseInt idArg = Some n \<and>
       findIndex (\<lambda>t. task_id t = IdNum n) (tasks d) = Some i \<and>
       \<not> isCompleted (status (tasks d ! i)) \<and>
       (hasSubtasks (tasks d ! i) \<longrightarrow> force) \<and>
       snd (expandTaskDirect p idArg force sa gen regen fs)
         = writeJSON p (d\<lparr>tasks := (tasks d)[i := t']\<rparr>) fs)"
proof (cases gen)
  case (Generated newSubtasks)
  show ?thesis
  proof (cases regen)
    case None
    with Generated show ?thesis
      by (auto simp: expandTaskDirect_def Let_def isCompleted_def split: option.splits)
  next
    case (Some msg)
    with Generated show ?thesis
      by (auto simp: expandTaskDirect_def Let_def isCompleted_def split: option.splits)
  qed
qed (auto simp: expandTaskDirect_def Let_def split: option.splits)

text \<open>
  So a task that is completed, or that has subtasks when \<open>force\<close> is not set, is stored
  after the call as it was before, whatever the arguments of the call.
\<close>

lemma expandTaskDirect_frame:
  assumes "j < length (storedTasks fs p)"
    and "isCompleted (status (storedTasks fs p ! j)) \<or>
         \<not> force \<and> hasSubtasks (storedTasks fs p ! j)"
  shows "j < length (storedTasks (snd (expandTaskDirect p idArg force sa gen regen fs)) p) \<and>
         storedTasks (snd (expandTaskDirect p idArg force sa gen regen fs)) p ! j
           = storedTasks fs p ! j"
  using expandTaskDirect_written [of p idArg force sa gen regen fs]
proof (elim disjE exE conjE)
  assume "snd (expandTaskDirect p idArg force sa gen regen fs) = fs"
  with assms(1) show ?thesis by simp
next
  fix d n i t'
  assume d: "readJSON fs p = Some d"
    and nc: "\<not> isCompleted (status (tasks d ! i))"
    and f: "hasSubtasks (tasks d ! i) \<longrightarrow> force"
    and w: "snd (expandTaskDirect p idArg force sa gen regen fs)
              = writeJSON p (d\<lparr>tasks := (tasks d)[i := t']\<rparr>) fs"
  from d have st: "storedTasks fs p = tasks d"
    by (simp add: storedTasks_def)
  with assms(2) nc f have "j \<noteq> i" by auto
  with assms(1) st show ?thesis
    by (simp add: w storedTasks_writeJSON)
qed

text \<open>
  C10 (as the claim states it, refuted): the document holds the one task 1, with status
  \<open>done\<close>; expansion is called on it by a client whose session has no
  \<^verbatim>\<open>requestSampling\<close> function. The error returned is \<open>SAMPLING_UNAVAILABLE\<close>, not
  \<open>TASK_COMPLETED\<close>: the check of the session comes before the document is read.
\<close>

theorem C10_counterexample:
  "isCompleted (status (plainTask 1 ''done'' None)) \<and>
   expandTaskDirect ''tasks.json'' ''1'' False False (Generated []) None
      (oneFile (docOf [plainTask 1 ''done'' None]))
    = (Failure ''SAMPLING_UNAVAILABLE''
         ''FastMCP sampling function (session.requestSampling) is not available.'',
       oneFile (docOf [plainTask 1 ''done'' None]))"
  by (simp add: expandTaskDirect_def parseInt_1 isCompleted_def plainTask_def)

text \<open>
  C10 (amended): whatever the arguments of the call, every task of the stored document
  whose status is \<open>done\<close> or \<open>completed\<close> stands after \<^verbatim>\<open>expandTaskDirect\<close> at its index
  as it was, subtasks included. When the \<^verbatim>\<open>id\<close> argument parses to a number \<open>n\<close> and the
  first task of the document whose id is the number \<open>n\<close> is \<open>done\<close> or \<open>completed\<close>,
  nothing is written and the result is an error, the one of the first check that fails:
  \<open>MISSING_ARGUMENT\<close> without a path, \<open>INPUT_VALIDATION_ERROR\<close> when \<open>n\<close> is 0,
  \<open>SAMPLING_UNAVAILABLE\<close> when the session has no \<^verbatim>\<open>requestSampling\<close> function, and
  otherwise \<open>TASK_COMPLETED\<close>, with or without \<open>force\<close> and whatever the generator would
  have returned. A task that the lookup does not find (no task has the number \<open>n\<close> as its
  id, as when the id is stored as a string) gets \<open>TASK_NOT_FOUND\<close> in place of
  \<open>TASK_COMPLETED\<close>, and an \<^verbatim>\<open>id\<close> argument that does not parse gets
  \<open>INPUT_VALIDATION_ERROR\<close>, both without a write.
\<close>

theorem C10_completed_task_not_expanded:
  "(\<forall>j < length (storedTasks fs p). isCompleted (status (storedTasks fs p ! j)) \<longrightarrow>
      j < length (storedTasks (snd (expandTaskDirect p idArg force sa gen regen fs)) p) \<and>
      storedTasks (snd (expandTaskDirect p idArg force sa gen regen fs)) p ! j
        = storedTasks fs p ! j) \<and>
   (readJSON fs p = Some d \<and> parseInt idArg = Some n \<and>
    findIndex (\<lambda>t. task_id t = IdNum n) (tasks d) = Some i \<and>
    isCompleted (status (tasks d ! i)) \<longrightarrow>
      snd (expandTaskDirect p idArg force sa gen regen fs) = fs \<and>
      fst (expandTaskDirect p idArg force sa gen regen fs) =
        (if p = [] then Failure ''MISSING_ARGUMENT'' ''tasksJsonPath is required''
         else if n = 0 then Failure ''INPUT_VALIDATION_ERROR'' ''Task ID is required''
         else if \<not> sa then
           Failure ''SAMPLING_UNAVAILABLE''
             ''FastMCP sampling function (session.requestSampling) is not available.''
         else Failure ''TASK_COMPLETED'' (''Task '' @ showInt n @ '' is already completed''))) \<and>
   (readJSON fs p = Some d \<and> parseInt idArg = Some n \<and>
    findIndex (\<lambda>t. task_id t = IdNum n) (tasks d) = None \<longrightarrow>
      snd (expandTaskDirect p idArg force sa gen regen fs) = fs \<and>
      fst (expandTaskDirect p idArg force sa gen regen fs) =
        (if p = [] then Failure ''MISSING_ARGUMENT'' ''tasksJsonPath is required''
         else if n = 0 then Failure ''INPUT_VALIDATION_ERROR'' ''Task ID is required''
         else if \<not> sa then
           Failure ''SAMPLING_UNAVAILABLE''
             ''FastMCP sampling function (session.requestSampling) is not available.''
         else Failure ''TASK_NOT_FOUND'' (''Task with ID '' @ showInt n @ '' not found''))) \<and>
   (parseInt idArg = None \<longrightarrow>
      snd (expandTaskDirect p idArg force sa gen regen fs) = fs \<and>
      fst (expandTaskDirect p idArg force sa gen regen fs) =
        (if p = [] then Failure ''MISSING_ARGUMENT'' ''tasksJsonPath is required''
         else Failure ''INPUT_VALIDATION_ERROR'' ''Task ID is required''))"
proof (intro conjI allI impI)
  fix j
  assume "j < length (storedTasks fs p)" and "isCompleted (status (storedTasks fs p ! j))"
  then show "j < length (storedTasks (snd (expandTaskDirect p idArg force sa gen regen fs)) p)"
    and "storedTasks (snd (expandTaskDirect p idArg force sa gen regen fs)) p ! j
        = storedTasks fs p ! j"
    by (simp_all add: expandTaskDirect_frame)
next
  assume h: "readJSON fs p = Some d \<and> parseInt idArg = Some n \<and>
    findIndex (\<lambda>t. task_id t = IdNum n) (tasks d) = Some i \<and>
    isCompleted (status (tasks d ! i))"
  then have "idArg \<noteq> []" by (auto simp: parseInt_Nil)
  with h show "snd (expandTaskDirect p idArg force sa gen regen fs) = fs"
    by (simp add: expandTaskDirect_def isCompleted_def Let_def)
  from h \<open>idArg \<noteq> []\<close> show "fst (expandTaskDirect p idArg force sa gen regen fs) =
        (if p = [] then Failure ''MISSING_ARGUMENT'' ''tasksJsonPath is required''
         else if n = 0 then Failure ''INPUT_VALIDATION_ERROR'' ''Task ID is required''
         else if \<not> sa then
           Failure ''SAMPLING_UNAVAILABLE''
             ''FastMCP sampling function (session.requestSampling) is not available.''
         else Failure ''TASK_COMPLETED'' (''Task '' @ showInt n @ '' is already completed''))"
    by (simp add: expandTaskDirect_def isCompleted_def Let_def)
next
  assume h: "readJSON fs p = Some d \<and> parseInt idArg = Some n \<and>
    findIndex (\<lambda>t. task_id t = IdNum n) (tasks d) = None"
  then have "idArg \<noteq> []" by (auto simp: parseInt_Nil)
  with h show "snd (expandTaskDirect p idArg force sa gen regen fs) = fs"
    by (simp add: expandTaskDirect_def)
  from h \<open>idArg \<noteq> []\<close> show "fst (expandTaskDirect p idArg force sa gen regen fs) =
        (if p = [] then Failure ''MISSING_ARGUMENT'' ''tasksJsonPath is required''
         else if n = 0 then Failure ''INPUT_VALIDATION_ERROR'' ''Task ID is required''
         else if \<not> sa then
           Failure ''SAMPLING_UNAVAILABLE''
             ''FastMCP sampling function (session.requestSampling) is not available.''
         else Failure ''TASK_NOT_FOUND'' (''Task with ID '' @ showInt n @ '' not found''))"
    by (simp add: expandTaskDirect_def)
next
  assume h: "parseInt idArg = None"
  then show "snd (expandTaskDirect p idArg force sa gen regen fs) = fs"
    by (simp add: expandTaskDirect_def)
  from h show "fst (expandTaskDirect p idArg force sa gen regen fs) =
        (if p = [] then Failure ''MISSING_ARGUMENT'' ''tasksJsonPath is required''
         else Failure ''INPUT_VALIDATION_ERROR'' ''Task ID is required'')"
    by (simp add: expandTaskDirect_def)
qed

theorem C10_completed_task_not_expanded_witness:
  "readJSON (oneFile (docOf [plainTask 1 ''completed'' None])) ''tasks.json''
     = Some (docOf [plainTask 1 ''completed'' None]) \<and>
   parseInt ''1'' = Some 1 \<and>
   findIndex (\<lambda>t. task_id t = IdNum 1) (tasks (docOf [plainTask 1 ''completed'' None])) = Some 0 \<and>
   isCompleted (status (tasks (docOf [plainTask 1 ''completed'' None]) ! 0)) \<and>
   expandTaskDirect ''tasks.json'' ''1'' True True (Generated [plainSub None None]) None
       (oneFile (docOf [plainTask 1 ''completed'' None]))
     = (Failure ''TASK_COMPLETED'' ''Task 1 is already completed'',
        oneFile (docOf [plainTask 1 ''completed'' None])) \<and>
   (0::nat) < length (storedTasks
       (oneFile (docOf [plainTask 1 ''done'' None, plainTask 2 ''pending'' None])) ''tasks.json'') \<and>
   isCompleted (status (storedTasks
       (oneFile (docOf [plainTask 1 ''done'' None, plainTask 2 ''pending'' None])) ''tasks.json'' ! 0)) \<and>
   storedTasks
       (snd (expandTaskDirect ''tasks.json'' ''2'' True True (Generated [plainSub None None]) None
          (oneFile (docOf [plainTask 1 ''done'' None, plainTask 2 ''pending'' None]))))
       ''tasks.json'' ! 0
     = plainTask 1 ''done'' None"
proof -
  let ?fs = "oneFile (docOf [plainTask 1 ''completed'' None])"
  let ?fs2 = "oneFile (docOf [plainTask 1 ''done'' None, plainTask 2 ''pending'' None])"
  let ?gen = "Generated [plainSub None None]"
  have h: "readJSON ?fs ''tasks.json'' = Some (docOf [plainTask 1 ''completed'' None])"
    "parseInt ''1'' = Some 1"
    "findIndex (\<lambda>t. task_id t = IdNum 1) (tasks (docOf [plainTask 1 ''completed'' None])) = Some 0"
    "isCompleted (status (tasks (docOf [plainTask 1 ''completed'' None]) ! 0))"
    by (simp_all add: parseInt_1 readJSON_def oneFile_def docOf_def plainTask_def isCompleted_def)
  have h2: "(0::nat) < length (storedTasks ?fs2 ''tasks.json'')"
    "isCompleted (status (storedTasks ?fs2 ''tasks.json'' ! 0))"
    "storedTasks ?fs2 ''tasks.json'' ! 0 = plainTask 1 ''done'' None"
    by (simp_all add: storedTasks_def readJSON_def oneFile_def docOf_def plainTask_def
        isCompleted_def)
  from C10_completed_task_not_expanded [where fs = ?fs and p = "''tasks.json''"
      and idArg = "''1''" and force = True and sa = True and gen = ?gen and regen = None
      and d = "docOf [plainTask 1 ''completed'' None]" and n = 1 and i = 0] h
  have a: "expandTaskDirect ''tasks.json'' ''1'' True True ?gen None ?fs
             = (Failure ''TASK_COMPLETED'' ''Task 1 is already completed'', ?fs)"
    by (simp add: prod_eq_iff showInt_1)
  from C10_completed_task_not_expanded [where fs = ?fs2 and p = "''tasks.json''"
      and idArg = "''2''" and force = True and sa = True and gen = ?gen and regen = None] h2
  have b: "storedTasks (snd (expandTaskDirect ''tasks.json'' ''2'' True True ?gen None ?fs2))
             ''tasks.json'' ! 0 = plainTask 1 ''done'' None"
    by auto
  from h h2 a b show ?thesis by simp
qed

text \<open>
  C5 (as the claim states it, refuted): a task with a subtask whose status is \<open>done\<close>,
  expanded with \<open>force\<close> false, gets the error \<open>TASK_COMPLETED\<close>, not a success.
\<close>

theorem C5_counterexample:
  "hasSubtasks (plainTask 1 ''done'' (Some [plainSub (Some (IdNum 1)) (Some ''done'')])) \<and>
   expandTaskDirect ''tasks.json'' ''1'' False True (Generated []) None
      (oneFile (docOf [plainTask 1 ''done'' (Some [plainSub (Some (IdNum 1)) (Some ''done'')])]))
    = (Failure ''TASK_COMPLETED'' ''Task 1 is already completed'',
       oneFile (docOf [plainTask 1 ''done'' (Some [plainSub (Some (IdNum 1)) (Some ''done'')])]))"
  by (simp add: expandTaskDirect_def parseInt_1 showInt_1 readJSON_def oneFile_def docOf_def plainTask_def
      hasSubtasks_def)

text \<open>
  C5 (amended): whatever the other arguments of the call, every task of the stored
  document that has at least one subtask stands after \<^verbatim>\<open>expandTaskDirect\<close> with \<open>force\<close>
  false at its index as it was. When the \<^verbatim>\<open>id\<close> argument parses to a number \<open>n\<close> and the
  first task of the document whose id is the number \<open>n\<close> has at least one subtask, the
  call with \<open>force\<close> false writes nothing, and its result is the one of the first check
  that applies: the error \<open>MISSING_ARGUMENT\<close> without a path, \<open>INPUT_VALIDATION_ERROR\<close>
  when \<open>n\<close> is 0, \<open>SAMPLING_UNAVAILABLE\<close> when the session has no \<^verbatim>\<open>requestSampling\<close>
  function, \<open>TASK_COMPLETED\<close> when the task is \<open>done\<close> or \<open>completed\<close>, and otherwise a
  success that reports the task as it is, zero subtasks added and the message "Skipped".
\<close>

theorem C5_skip_existing_subtasks:
  "(\<forall>j < length (storedTasks fs p). hasSubtasks (storedTasks fs p ! j) \<longrightarrow>
      j < length (storedTasks (snd (expandTaskDirect p idArg False sa gen regen fs)) p) \<and>
      storedTasks (snd (expandTaskDirect p idArg False sa gen regen fs)) p ! j
        = storedTasks fs p ! j) \<and>
   (readJSON fs p = Some d \<and> parseInt idArg = Some n \<and>
    findIndex (\<lambda>t. task_id t = IdNum n) (tasks d) = Some i \<and>
    hasSubtasks (tasks d ! i) \<longrightarrow>
      snd (expandTaskDirect p idArg False sa gen regen fs) = fs \<and>
      fst (expandTaskDirect p idArg False sa gen regen fs) =
        (if p = [] then Failure ''MISSING_ARGUMENT'' ''tasksJsonPath is required''
         else if n = 0 then Failure ''INPUT_VALIDATION_ERROR'' ''Task ID is required''
         else if \<not> sa then
           Failure ''SAMPLING_UNAVAILABLE''
             ''FastMCP sampling function (session.requestSampling) is not available.''
         else if isCompleted (status (tasks d ! i)) then
           Failure ''TASK_COMPLETED'' (''Task '' @ showInt n @ '' is already completed'')
         else
           Success (Expanded (Some (''Task '' @ showInt n @ '' already has subtasks. Skipped.''))
                      (tasks d ! i) 0)))"
proof (intro conjI allI impI)
  fix j
  assume "j < length (storedTasks fs p)" and "hasSubtasks (storedTasks fs p ! j)"
  then show "j < length (storedTasks (snd (expandTaskDirect p idArg False sa gen regen fs)) p)"
    and "storedTasks (snd (expandTaskDirect p idArg False sa gen regen fs)) p ! j
        = storedTasks fs p ! j"
    by (simp_all add: expandTaskDirect_frame)
next
  assume h: "readJSON fs p = Some d \<and> parseInt idArg = Some n \<and>
    findIndex (\<lambda>t. task_id t = IdNum n) (tasks d) = Some i \<and>
    hasSubtasks (tasks d ! i)"
  then have "idArg \<noteq> []" by (auto simp: parseInt_Nil)
  with h show "snd (expandTaskDirect p idArg False sa gen regen fs) = fs"
    by (simp add: expandTaskDirect_def isCompleted_def Let_def)
  from h \<open>idArg \<noteq> []\<close> show "fst (expandTaskDirect p idArg False sa gen regen fs) =
        (if p = [] then Failure ''MISSING_ARGUMENT'' ''tasksJsonPath is required''
         else if n = 0 then Failure ''INPUT_VALIDATION_ERROR'' ''Task ID is required''
         else if \<not> sa then
           Failure ''SAMPLING_UNAVAILABLE''
             ''FastMCP sampling function (session.requestSampling) is not available.''
         else if isCompleted (status (tasks d ! i)) then
           Failure ''TASK_COMPLETED'' (''Task '' @ showInt n @ '' is already completed'')
         else
           Success (Expanded (Some (''Task '' @ showInt n @ '' already has subtasks. Skipped.''))
                      (tasks d ! i) 0))"
    by (simp add: expandTaskDirect_def isCompleted_def Let_def)
qed

theorem C5_skip_existing_subtasks_witness:
  "readJSON (oneFile (docOf [plainTask 1 ''pending'' (Some [plainSub (Some (IdNum 1)) None])]))
       ''tasks.json''
     = Some (docOf [plainTask 1 ''pending'' (Some [plainSub (Some (IdNum 1)) None])]) \<and>
   parseInt ''1'' = Some 1 \<and>
   findIndex (\<lambda>t. task_id t = IdNum 1)
       (tasks (docOf [plainTask 1 ''pending'' (Some [plainSub (Some (IdNum 1)) None])])) = Some 0 \<and>
   hasSubtasks (tasks (docOf [plainTask 1 ''pending'' (Some [plainSub (Some (IdNum 1)) None])]) ! 0) \<and>
   expandTaskDirect ''tasks.json'' ''1'' False True (Generated [plainSub None None]) None
       (oneFile (docOf [plainTask 1 ''pending'' (Some [plainSub (Some (IdNum 1)) None])]))
     = (Success (Expanded (Some ''Task 1 already has subtasks. Skipped.'')
          (plainTask 1 ''pending'' (Some [plainSub (Some (IdNum 1)) None])) 0),
        oneFile (docOf [plainTask 1 ''pending'' (Some [plainSub (Some (IdNum 1)) None])])) \<and>
   expandTaskDirect ''tasks.json'' ''1'' False False (Generated [plainSub None None]) None
       (oneFile (docOf [plainTask 1 ''pending'' (Some [plainSub (Some (IdNum 1)) None])]))
     = (Failure ''SAMPLING_UNAVAILABLE''
          ''FastMCP sampling function (session.requestSampling) is not available.'',
        oneFile (docOf [plainTask 1 ''pending'' (Some [plainSub (Some (IdNum 1)) None])])) \<and>
   (0::nat) < length (storedTasks
       (oneFile (docOf [plainTask 1 ''pending'' (Some [plainSub (Some (IdNum 1)) None]),
                        plainTask 2 ''pending'' None])) ''tasks.json'') \<and>
   hasSubtasks (storedTasks
       (oneFile (docOf [plainTask 1 ''pending'' (Some [plainSub (Some (IdNum 1)) None]),
                        plainTask 2 ''pending'' None])) ''tasks.json'' ! 0) \<and>
   storedTasks
       (snd (expandTaskDirect ''tasks.json'' ''2'' False True (Generated [plainSub None None]) None
          (oneFile (docOf [plainTask 1 ''pending'' (Some [plainSub (Some (IdNum 1)) None]),
                           plainTask 2 ''pending'' None]))))
       ''tasks.json'' ! 0
     = plainTask 1 ''pending'' (Some [plainSub (Some (IdNum 1)) None])"
proof -
  let ?t = "plainTask 1 ''pending'' (Some [plainSub (Some (IdNum 1)) None])"
  let ?fs = "oneFile (docOf [?t])"
  let ?fs2 = "oneFile (docOf [?t, plainTask 2 ''pending'' None])"
  let ?gen = "Generated [plainSub None None]"
  have h: "readJSON ?fs ''tasks.json'' = Some (docOf [?t])"
    "parseInt ''1'' = Some 1"
    "findIndex (\<lambda>t. task_id t = IdNum 1) (tasks (docOf [?t])) = Some 0"
    "hasSubtasks (tasks (docOf [?t]) ! 0)"
    by (simp_all add: parseInt_1 readJSON_def oneFile_def docOf_def plainTask_def hasSubtasks_def)
  have st: "\<not> isCompleted (status (tasks (docOf [?t]) ! 0))" "tasks (docOf [?t]) ! 0 = ?t"
    by (simp_all add: docOf_def plainTask_def isCompleted_def)
  have h2: "(0::nat) < length (storedTasks ?fs2 ''tasks.json'')"
    "hasSubtasks (storedTasks ?fs2 ''tasks.json'' ! 0)"
    "storedTasks ?fs2 ''tasks.json'' ! 0 = ?t"
    by (simp_all add: storedTasks_def readJSON_def oneFile_def docOf_def plainTask_def
        hasSubtasks_def)
  from C5_skip_existing_subtasks [where fs = ?fs and p = "''tasks.json''"
      and idArg = "''1''" and sa = True and gen = ?gen and regen = None
      and d = "docOf [?t]" and n = 1 and i = 0] h st
  have a: "expandTaskDirect ''tasks.json'' ''1'' False True ?gen None ?fs
             = (Success (Expanded (Some ''Task 1 already has subtasks. Skipped.'') ?t 0), ?fs)"
    by (simp add: prod_eq_iff showInt_1)
  from C5_skip_existing_subtasks [where fs = ?fs and p = "''tasks.json''"
      and idArg = "''1''" and sa = False and gen = ?gen and regen = None
      and d = "docOf [?t]" and n = 1 and i = 0] h
  have a': "expandTaskDirect ''tasks.json'' ''1'' False False ?gen None ?fs
             = (Failure ''SAMPLING_UNAVAILABLE''
                  ''FastMCP sampling function (session.requestSampling) is not available.'', ?fs)"
    by (simp add: prod_eq_iff)
  from C5_skip_existing_subtasks [where fs = ?fs2 and p = "''tasks.json''"
      and idArg = "''2''" and sa = True and gen = ?gen and regen = None] h2
  have b: "storedTasks (snd (expandTaskDirect ''tasks.json'' ''2'' False True ?gen None ?fs2))
             ''tasks.json'' ! 0 = ?t"
    by auto
  from h h2 a a' b show ?thesis by simp
qed

section \<open>Properties of the range filter\<close>

text \<open>
  The filter as it is written: it keeps the order of the tasks and selects the tasks whose
  id parses to a number that is at least the parsed \<^verbatim>\<open>from\<close> and whose status is not
  \<open>done\<close>. An id that does not parse is left out; nothing is raised.
\<close>

lemma tasksToUpdateContext_set:
  "t \<in> set (tasksToUpdateContext fromArg ts) \<longleftrightarrow>
     t \<in> set ts \<and> parseFloat (String_js (task_id t)) \<noteq> NaN \<and>
     js_ge (parseFloat (String_js (task_id t))) (parseFloat fromArg) \<and> status t \<noteq> ''done''"
  by (auto simp: tasksToUpdateContext_def Let_def)

text \<open>
  C9 (the code at the failing input): with \<open>from = 1\<close>, a task with id 5 and status
  \<open>completed\<close> is selected for the update; only the status \<open>done\<close> is filtered out.
\<close>

theorem C9_completed_task_selected:
  "tasksToUpdateContext ''1'' [plainTask 5 ''completed'' None] = [plainTask 5 ''completed'' None]"
  by code_simp

section \<open>Properties of the batch coordinator\<close>

text \<open>
  C7 (the code at the failing input): with two eligible tasks and a generator that would
  succeed on both, \<^verbatim>\<open>tools/expand-all.js\<close> returns an error response at the first task
  and writes nothing: the loop body reads the undeclared \<^verbatim>\<open>complexityReport\<close>.
\<close>

theorem C7_expand_all_aborts:
  "expand_all_execute ''/proj'' (Inr ''tasks.json'') False (None :: unit option)
      (\<lambda>i t. Generated [plainSub None None])
      (oneFile (docOf [plainTask 1 ''pending'' None, plainTask 2 ''pending'' None]))
    = (ErrorResponse ''Internal server error during expand all tasks: complexityReport is not defined'',
       oneFile (docOf [plainTask 1 ''pending'' None, plainTask 2 ''pending'' None]))"
  by (simp add: expand_all_execute_def readJSON_def oneFile_def docOf_def plainTask_def
      eligible_def hasSubtasks_def internalError_def)

text \<open>
  The same in general, and what the loops do once the read of \<^verbatim>\<open>complexityReport\<close> is
  out of the way. In the module as it is, every batch with an eligible task ends in the
  error response (\<open>expand_all_execute_unbound_aborts\<close>). With the name bound, the loop of
  \<^verbatim>\<open>tools/expand-all.js\<close> visits every task and counts each one as a result or as a
  failure, and a batch in which every task fails returns a success envelope with a
  message. The loop of \<^verbatim>\<open>part_000\<close> collects one update per task the generator succeeds
  on, and its \<^verbatim>\<open>execute\<close> returns a success envelope with a message when no task is
  eligible or none succeeds.
\<close>

lemma expandLoop_bound_total:
  "\<exists>results' failed'.
     expandLoop (Some r) sample i ts results failedCount = Inr (results', failed') \<and>
     length results' + failed' = length results + failedCount + length ts"
proof (induction ts arbitrary: i results failedCount)
  case Nil
  then show ?case by simp
next
  case (Cons t ts)
  show ?case
  proof (cases "sample i t")
    case (Generated subs)
    with Cons [of "i + 1" "results @ [\<lparr>taskId = task_id t, upd_subtasks = Some subs\<rparr>]" failedCount]
    show ?thesis by auto
  qed (use Cons [of "i + 1" results "failedCount + 1"] in auto)
qed

lemma expandLoop_part_000_length:
  "length (expandLoop_part_000 sample i ts acc) =
     length acc + length (filter (\<lambda>(j, t). \<exists>subs. sample j t = Generated subs) (enumerate i ts))"
  by (induction ts arbitrary: i acc) (auto split: generation.splits)

lemma expandLoop_part_000_no_success:
  "\<forall>j t. (\<forall>subs. sample j t \<noteq> Generated subs) \<Longrightarrow>
     expandLoop_part_000 sample i ts acc = acc"
  by (induction ts arbitrary: i acc) (auto split: generation.splits)

lemma expandLoop_bound_no_success:
  assumes "\<forall>j t subs. sample j t \<noteq> Generated subs"
  shows "expandLoop (Some r) sample i ts results failedCount
           = Inr (results, failedCount + length ts)"
proof (induction ts arbitrary: i failedCount)
  case Nil
  show ?case by simp
next
  case (Cons t ts)
  have "expandLoop (Some r) sample i (t # ts) results failedCount
          = expandLoop (Some r) sample (i + 1) ts results (failedCount + 1)"
    using assms by (cases "sample i t") auto
  also have "\<dots> = Inr (results, failedCount + 1 + length ts)"
    by (rule Cons.IH)
  finally show ?case by simp
qed

lemma expand_all_execute_unbound_aborts:
  assumes "rootFolder \<noteq> []" and "readJSON fs p = Some d"
    and "filter (eligible force) (tasks d) \<noteq> []"
  shows "expand_all_execute rootFolder (Inr p) force None sample fs
           = (internalError ''complexityReport is not defined'', fs)"
proof -
  from assms(3) obtain t ts where "filter (eligible force) (tasks d) = t # ts"
    by (cases "filter (eligible force) (tasks d)") auto
  with assms(1,2) show ?thesis
    by (simp add: expand_all_execute_def)
qed

lemma expand_all_execute_bound_all_failed:
  assumes "rootFolder \<noteq> []" and "readJSON fs p = Some d"
    and "\<forall>j t subs. sample j t \<noteq> Generated subs"
  shows "\<exists>msg. expand_all_execute rootFolder (Inr p) force (Some r) sample fs
           = (ApiResult (Success (Message msg)), fs)"
  using assms(1,2)
  by (simp add: expand_all_execute_def Let_def expandLoop_bound_no_success [OF assms(3)])

lemma expand_all_execute_part_000_all_failed:
  assumes "rootFolder \<noteq> []" and "readJSON fs p = Some d"
    and "\<forall>j t subs. sample j t \<noteq> Generated subs"
  shows "expand_all_execute_part_000 rootFolder (Inr p) force sample fs
           = (ApiResult (Success (Message
                (if filter (eligible force) (tasks d) = []
                 then ''No pending tasks eligible for expansion found.''
                 else ''No tasks were successfully expanded.''))), fs)"
  using assms
  by (simp add: expand_all_execute_part_000_def Let_def expandLoop_part_000_no_success)

section \<open>The merge in detail\<close>

subsection \<open>The Map\<close>

lemma Map_set_keys: "fst ` set (Map_set k v m) = insert k (fst ` set m)"
  by (induction m) auto

lemma Map_set_keyed:
  "\<forall>e \<in> set m. f (snd e) = fst e \<Longrightarrow> f v = k \<Longrightarrow> \<forall>e \<in> set (Map_set k v m). f (snd e) = fst e"
  by (induction m) auto


lemma set_Map_delete: "set (Map_delete k m) = {e \<in> set m. fst e \<noteq> k}"
  by (auto simp: Map_delete_def)

lemma foldl_Map_set_keys:
  "fst ` set (foldl (\<lambda>m t. Map_set (taskIdStr t) t m) m0 us) = fst ` set m0 \<union> taskIdStr ` set us"
  by (induction us arbitrary: m0) (auto simp: Map_set_keys)

lemma foldl_Map_set_keyed:
  "\<forall>e \<in> set m0. taskIdStr (snd e) = fst e \<Longrightarrow>
   \<forall>e \<in> set (foldl (\<lambda>m t. Map_set (taskIdStr t) t m) m0 us). taskIdStr (snd e) = fst e"
proof (induction us arbitrary: m0)
  case Nil
  then show ?case by simp
next
  case (Cons u us)
  have "\<forall>e \<in> set (Map_set (taskIdStr u) u m0). taskIdStr (snd e) = fst e"
    using Cons.prems by (rule Map_set_keyed) simp
  then show ?case using Cons.IH by simp
qed

lemma updatedTasksMap_keys: "fst ` set (updatedTasksMap us) = taskIdStr ` set us"
  by (simp add: updatedTasksMap_def foldl_Map_set_keys)

lemma updatedTasksMap_keyed: "e \<in> set (updatedTasksMap us) \<Longrightarrow> taskIdStr (snd e) = fst e"
  using foldl_Map_set_keyed [of "[]" us] by (simp add: updatedTasksMap_def)

subsection \<open>The pass over the existing tasks\<close>

lemma mergeExisting_leftover:
  "snd (mergeExisting ts m) = filter (\<lambda>e. fst e \<notin> taskIdStr ` set ts) m"
proof (induction ts arbitrary: m)
  case Nil
  then show ?case by simp
next
  case (Cons t ts)
  show ?case
  proof (cases "map_of m (taskIdStr t)")
    case None
    then have "taskIdStr t \<notin> fst ` set m"
      by (simp add: map_of_eq_None_iff)
    then have "\<forall>e \<in> set m. fst e \<noteq> taskIdStr t"
      by force
    then have "filter (\<lambda>e. fst e \<notin> taskIdStr ` set ts) m
             = filter (\<lambda>e. fst e \<notin> taskIdStr ` set (t # ts)) m"
      by (intro filter_cong) auto
    with None Cons.IH [of m] show ?thesis
      by (simp add: split_beta)
  next
    case (Some u)
    have "filter (\<lambda>e. fst e \<notin> taskIdStr ` set ts) (Map_delete (taskIdStr t) m)
        = filter (\<lambda>e. fst e \<notin> taskIdStr ` set (t # ts)) m"
      unfolding Map_delete_def filter_filter by (intro filter_cong) auto
    with Some Cons.IH [of "Map_delete (taskIdStr t) m"] show ?thesis
      by (simp add: split_beta)
  qed
qed

lemma mergeExisting_length: "length (fst (mergeExisting ts m)) = length ts"
  by (induction ts arbitrary: m) (auto simp: split_beta split: option.splits)


lemma mergeExisting_untouched_nth:
  "i < length ts \<Longrightarrow> taskIdStr (ts ! i) \<notin> fst ` set m \<Longrightarrow> fst (mergeExisting ts m) ! i = ts ! i"
proof (induction ts arbitrary: m i)
  case Nil
  then show ?case by simp
next
  case (Cons t ts)
  show ?case
  proof (cases i)
    case 0
    with Cons.prems have "map_of m (taskIdStr t) = None"
      by (simp add: map_of_eq_None_iff)
    with 0 show ?thesis by (simp add: split_beta)
  next
    case (Suc j)
    with Cons.prems have j: "j < length ts" "taskIdStr (ts ! j) \<notin> fst ` set m" by auto
    then have "taskIdStr (ts ! j) \<notin> fst ` set (Map_delete (taskIdStr t) m)"
      by (auto simp: set_Map_delete)
    with j Suc Cons.IH show ?thesis
      by (auto simp: split_beta split: option.splits)
  qed
qed

lemma mergeExisting_untouched_filter:
  "\<forall>e \<in> set m. taskIdStr (snd e) = fst e \<Longrightarrow> fst ` set m \<subseteq> K \<Longrightarrow>
   filter (\<lambda>t. taskIdStr t \<notin> K) (fst (mergeExisting ts m)) = filter (\<lambda>t. taskIdStr t \<notin> K) ts"
proof (induction ts arbitrary: m)
  case Nil
  then show ?case by simp
next
  case (Cons t ts)
  show ?case
  proof (cases "map_of m (taskIdStr t)")
    case None
    with Cons show ?thesis by (simp add: split_beta)
  next
    case (Some u)
    then have mem: "(taskIdStr t, u) \<in> set m" by (rule map_of_SomeD)
    with Cons.prems have ku: "taskIdStr u = taskIdStr t" by force
    from mem Cons.prems(2) have inK: "taskIdStr t \<in> K" by force
    have "\<forall>e \<in> set (Map_delete (taskIdStr t) m). taskIdStr (snd e) = fst e"
      "fst ` set (Map_delete (taskIdStr t) m) \<subseteq> K"
      using Cons.prems by (auto simp: set_Map_delete)
    from Cons.IH [OF this] Some ku inK show ?thesis by (simp add: split_beta)
  qed
qed



subsection \<open>The sort\<close>



lemma mset_sort_insert: "mset (sort_insert x ys) = add_mset x (mset ys)"
  by (induction ys) auto

lemma mset_stableSortById: "mset (stableSortById xs) = mset xs"
  by (induction xs) (auto simp: stableSortById_def mset_sort_insert)

lemma mset_arrange: "mset (arrange engine xs) = mset xs"
  by (simp add: arrange_def)

lemma mset_js_sort: "mset (js_sort engine xs) = mset xs"
  by (simp add: js_sort_def mset_stableSortById mset_arrange)

lemma set_js_sort: "set (js_sort engine xs) = set xs"
  using mset_js_sort [of engine xs] by (metis set_mset_mset)









subsection \<open>The sort when every id parses\<close>

lemma js_positive_rank:
  "x \<noteq> NaN \<Longrightarrow> y \<noteq> NaN \<Longrightarrow> js_positive (js_minus x y) \<longleftrightarrow> idRank y < idRank x"
  by (cases x; cases y) auto

lemma idRank_inj: "idRank x = idRank y \<Longrightarrow> x = y"
  by (cases x; cases y) auto

lemma idsParse_iff: "idsParse xs \<longleftrightarrow> (\<forall>t \<in> set xs. parseFloat (taskIdStr t) \<noteq> NaN)"
  by (simp add: idsParse_def list_all_iff)

lemma idLe_rank:
  "parseFloat (taskIdStr a) \<noteq> NaN \<Longrightarrow> parseFloat (taskIdStr b) \<noteq> NaN \<Longrightarrow>
   idLe a b \<longleftrightarrow> taskRank a \<le> taskRank b"
  by (simp add: idLe_def compareById_def taskRank_def js_positive_rank not_less)

lemma sort_insert_insort:
  "parseFloat (taskIdStr x) \<noteq> NaN \<Longrightarrow> idsParse ys \<Longrightarrow>
   sort_insert x ys = insort_key taskRank x ys"
proof (induction ys)
  case Nil
  show ?case by simp
next
  case (Cons y ys)
  then have y: "parseFloat (taskIdStr y) \<noteq> NaN" and ys: "idsParse ys"
    by (simp_all add: idsParse_iff)
  have "js_positive (compareById x y) \<longleftrightarrow> \<not> taskRank x \<le> taskRank y"
    using Cons.prems(1) y idLe_rank [of x y] unfolding idLe_def by blast
  moreover have "sort_insert x ys = insort_key taskRank x ys"
    using Cons.prems(1) ys by (rule Cons.IH)
  ultimately show ?case by simp
qed

lemma stableSortById_sort_key: "idsParse xs \<Longrightarrow> stableSortById xs = sort_key taskRank xs"
proof (induction xs)
  case Nil
  show ?case by (simp add: stableSortById_def)
next
  case (Cons x xs)
  then have x: "parseFloat (taskIdStr x) \<noteq> NaN" and xs: "idsParse xs"
    by (simp_all add: idsParse_iff)
  have rest: "stableSortById xs = sort_key taskRank xs"
    using xs by (rule Cons.IH)
  have "idsParse (sort_key taskRank xs)"
    using xs by (simp add: idsParse_iff)
  with x have "sort_insert x (sort_key taskRank xs) = insort_key taskRank x (sort_key taskRank xs)"
    by (rule sort_insert_insort)
  with rest show ?case
    by (simp add: stableSortById_def sort_key_def)
qed

lemma js_sort_sort_key: "idsParse xs \<Longrightarrow> js_sort engine xs = sort_key taskRank xs"
  by (simp add: js_sort_def stableSortById_sort_key)

lemma sorted_wrt_idLe: "idsParse xs \<Longrightarrow> sorted_wrt idLe xs \<longleftrightarrow> sorted (map taskRank xs)"
proof (induction xs)
  case Nil
  show ?case by simp
next
  case (Cons x xs)
  then have x: "parseFloat (taskIdStr x) \<noteq> NaN" and xs: "idsParse xs"
    by (simp_all add: idsParse_iff)
  have "(\<forall>y \<in> set xs. idLe x y) \<longleftrightarrow> (\<forall>y \<in> set xs. taskRank x \<le> taskRank y)"
    using x xs by (auto simp: idsParse_iff idLe_rank)
  moreover have "sorted_wrt idLe xs \<longleftrightarrow> sorted (map taskRank xs)"
    using xs by (rule Cons.IH)
  ultimately show ?case by simp
qed

lemma sorted_js_sort: "idsParse xs \<Longrightarrow> sorted_wrt idLe (js_sort engine xs)"
proof -
  assume p: "idsParse xs"
  then have "idsParse (sort_key taskRank xs)"
    by (simp add: idsParse_iff)
  then have "sorted_wrt idLe (sort_key taskRank xs)"
    by (simp add: sorted_wrt_idLe sorted_sort_key)
  with p show ?thesis by (simp add: js_sort_sort_key)
qed

subsection \<open>The sort of Node.js returns a rearrangement\<close>




subsection \<open>Where the merged tasks come from\<close>

lemma Map_set_values: "snd ` set (Map_set k v m) \<subseteq> insert v (snd ` set m)"
  by (induction m) auto

lemma foldl_Map_set_values:
  "snd ` set (foldl (\<lambda>m t. Map_set (taskIdStr t) t m) m0 us) \<subseteq> snd ` set m0 \<union> set us"
proof (induction us arbitrary: m0)
  case Nil
  show ?case by simp
next
  case (Cons u us)
  have "snd ` set (foldl (\<lambda>m t. Map_set (taskIdStr t) t m) (Map_set (taskIdStr u) u m0) us)
          \<subseteq> snd ` set (Map_set (taskIdStr u) u m0) \<union> set us"
    by (rule Cons.IH)
  also have "\<dots> \<subseteq> insert u (snd ` set m0) \<union> set us"
    using Map_set_values [of "taskIdStr u" u m0] by blast
  finally show ?case by auto
qed

lemma updatedTasksMap_range: "snd ` set (updatedTasksMap us) \<subseteq> set us"
  using foldl_Map_set_values [of "[]" us] by (simp add: updatedTasksMap_def)

lemma mergeExisting_set:
  "set (fst (mergeExisting ts m)) \<subseteq> set ts \<union> snd ` set m"
proof (induction ts arbitrary: m)
  case Nil
  then show ?case by simp
next
  case (Cons t ts)
  show ?case
  proof (cases "map_of m (taskIdStr t)")
    case None
    have "set (fst (mergeExisting ts m)) \<subseteq> set ts \<union> snd ` set m"
      by (rule Cons.IH)
    with None show ?thesis by (auto simp: split_beta)
  next
    case (Some u)
    then have "(taskIdStr t, u) \<in> set m" by (rule map_of_SomeD)
    then have u: "u \<in> snd ` set m" by force
    have "snd ` set (Map_delete (taskIdStr t) m) \<subseteq> snd ` set m"
      by (auto simp: set_Map_delete)
    moreover have "set (fst (mergeExisting ts (Map_delete (taskIdStr t) m)))
                  \<subseteq> set ts \<union> snd ` set (Map_delete (taskIdStr t) m)"
      by (rule Cons.IH)
    ultimately have rest: "set (fst (mergeExisting ts (Map_delete (taskIdStr t) m)))
                  \<subseteq> set ts \<union> snd ` set m"
      by blast
    have "fst (mergeExisting (t # ts) m)
            = u # fst (mergeExisting ts (Map_delete (taskIdStr t) m))"
      using Some by (simp add: split_beta)
    with u rest show ?thesis by auto
  qed
qed

text \<open>The list handed to the sort: the mapped tasks and the leftovers.\<close>

lemma presort_set:
  "set (fst (mergeExisting ts (updatedTasksMap us)) @
        Map_values (snd (mergeExisting ts (updatedTasksMap us)))) \<subseteq> set ts \<union> set us"
proof -
  let ?m = "updatedTasksMap us"
  have "set (fst (mergeExisting ts ?m)) \<subseteq> set ts \<union> set us"
    using mergeExisting_set [of ts ?m] updatedTasksMap_range [of us] by blast
  moreover have "set (Map_values (snd (mergeExisting ts ?m))) \<subseteq> set us"
    using updatedTasksMap_range [of us]
    by (auto simp: Map_values_def mergeExisting_leftover)
  ultimately show ?thesis by auto
qed

lemma mergedTasks_set: "set (mergedTasks engine ts us) \<subseteq> set ts \<union> set us"
proof -
  have "set (fst (mergeExisting ts (updatedTasksMap us))) \<subseteq> set ts \<union> set us"
    using presort_set [of ts us] by simp
  with presort_set [of ts us] show ?thesis
    by (simp add: mergedTasks_def split_beta set_js_sort)
qed




subsection \<open>Leftovers\<close>








lemma saveUpdatedTasksDirect_stored:
  "tasksJsonPath \<noteq> [] \<Longrightarrow> projectRoot \<noteq> [] \<Longrightarrow> readJSON fs tasksJsonPath = Some d \<Longrightarrow>
   readJSON (snd (saveUpdatedTasksDirect engine tasksJsonPath projectRoot (Some us) fs))
       tasksJsonPath
     = Some (d\<lparr>tasks := mergedTasks engine (tasks d) us\<rparr>)"
  by (simp add: saveUpdatedTasksDirect_def readJSON_def writeJSON_def)


lemma leftovers_iff:
  "snd (mergeExisting ts (updatedTasksMap us)) = [] \<longleftrightarrow>
     taskIdStr ` set us \<subseteq> taskIdStr ` set ts"
proof -
  have "(\<forall>e \<in> set (updatedTasksMap us). fst e \<in> taskIdStr ` set ts) \<longleftrightarrow>
        fst ` set (updatedTasksMap us) \<subseteq> taskIdStr ` set ts"
    by blast
  then show ?thesis
    by (simp add: mergeExisting_leftover filter_empty_conv updatedTasksMap_keys)
qed

lemma mergedTasks_in_place:
  assumes "taskIdStr ` set us \<subseteq> taskIdStr ` set ts"
  shows "mergedTasks engine ts us = fst (mergeExisting ts (updatedTasksMap us))"
  using assms by (simp add: mergedTasks_def split_beta leftovers_iff)

lemma mergedTasks_sorted_case:
  assumes "\<not> taskIdStr ` set us \<subseteq> taskIdStr ` set ts"
  shows "mergedTasks engine ts us =
           js_sort engine (fst (mergeExisting ts (updatedTasksMap us)) @
                           Map_values (snd (mergeExisting ts (updatedTasksMap us))))"
  using assms by (simp add: mergedTasks_def split_beta leftovers_iff)


subsection \<open>The tasks that are not in the batch\<close>

lemma updatedTasksMap_values:
  "e \<in> set (updatedTasksMap us) \<Longrightarrow> taskIdStr (snd e) \<in> taskIdStr ` set us"
  using updatedTasksMap_keys [of us] updatedTasksMap_keyed [of e us] by force

lemma presort_untouched:
  "filter (\<lambda>t. taskIdStr t \<notin> taskIdStr ` set us)
     (fst (mergeExisting ts (updatedTasksMap us)) @
      Map_values (snd (mergeExisting ts (updatedTasksMap us))))
   = filter (\<lambda>t. taskIdStr t \<notin> taskIdStr ` set us) ts"
proof -
  let ?m = "updatedTasksMap us"
  let ?rs = "fst (mergeExisting ts ?m)"
  let ?m' = "snd (mergeExisting ts ?m)"
  let ?U = "\<lambda>t. taskIdStr t \<notin> taskIdStr ` set us"
  have keyed: "\<forall>e \<in> set ?m. taskIdStr (snd e) = fst e"
    by (simp add: updatedTasksMap_keyed)
  have rs: "filter ?U ?rs = filter ?U ts"
    using keyed by (rule mergeExisting_untouched_filter) (simp add: updatedTasksMap_keys)
  have "set ?m' \<subseteq> set ?m"
    by (auto simp: mergeExisting_leftover)
  then have "filter ?U (Map_values ?m') = []"
    by (auto simp: Map_values_def filter_empty_conv dest: updatedTasksMap_values)
  with rs show ?thesis by simp
qed

lemma mergedTasks_untouched_mset:
  "mset (filter (\<lambda>t. taskIdStr t \<notin> taskIdStr ` set us) (mergedTasks engine ts us))
     = mset (filter (\<lambda>t. taskIdStr t \<notin> taskIdStr ` set us) ts)"
proof -
  let ?m = "updatedTasksMap us"
  let ?rs = "fst (mergeExisting ts ?m)"
  let ?m' = "snd (mergeExisting ts ?m)"
  let ?U = "\<lambda>t. taskIdStr t \<notin> taskIdStr ` set us"
  have pre: "filter ?U (?rs @ Map_values ?m') = filter ?U ts"
    by (rule presort_untouched)
  have sorted: "mset (filter ?U (js_sort engine (?rs @ Map_values ?m')))
                  = mset (filter ?U (?rs @ Map_values ?m'))"
    by (simp only: mset_filter mset_js_sort)
  show ?thesis
  proof (cases "?m' = []")
    case True
    with pre show ?thesis
      by (simp add: mergedTasks_def split_beta Map_values_def)
  next
    case False
    then have "mergedTasks engine ts us = js_sort engine (?rs @ Map_values ?m')"
      by (simp add: mergedTasks_def split_beta)
    with sorted pre show ?thesis by (simp only:)
  qed
qed

lemma untouched_in_merged:
  assumes "t \<in> set ts" and "taskIdStr t \<notin> taskIdStr ` set us"
  shows "t \<in> set (mergedTasks engine ts us)"
proof -
  let ?U = "\<lambda>t. taskIdStr t \<notin> taskIdStr ` set us"
  from assms have "t \<in># mset (filter ?U ts)" by simp
  then have "t \<in># mset (filter ?U (mergedTasks engine ts us))"
    by (simp only: mergedTasks_untouched_mset)
  then show ?thesis by simp
qed

subsection \<open>The merged list when ids are appended and every id parses\<close>

lemma presort_idsParse:
  "idsParse (ts @ us) \<Longrightarrow>
   idsParse (fst (mergeExisting ts (updatedTasksMap us)) @
             Map_values (snd (mergeExisting ts (updatedTasksMap us))))"
  using presort_set [of ts us] unfolding idsParse_iff by auto

lemma mergedTasks_sorted:
  assumes "idsParse (ts @ us)" and "\<not> taskIdStr ` set us \<subseteq> taskIdStr ` set ts"
  shows "sorted_wrt idLe (mergedTasks engine ts us)"
  using presort_idsParse [OF assms(1)]
  by (simp add: mergedTasks_sorted_case [OF assms(2)] sorted_js_sort)

lemma mergedTasks_untouched_order:
  assumes "idsParse (ts @ us)" and "\<not> taskIdStr ` set us \<subseteq> taskIdStr ` set ts"
  shows "filter (\<lambda>t. taskIdStr t \<notin> taskIdStr ` set us) (mergedTasks engine ts us)
           = stableSortById (filter (\<lambda>t. taskIdStr t \<notin> taskIdStr ` set us) ts)"
proof -
  let ?U = "\<lambda>t. taskIdStr t \<notin> taskIdStr ` set us"
  let ?pre = "fst (mergeExisting ts (updatedTasksMap us)) @
              Map_values (snd (mergeExisting ts (updatedTasksMap us)))"
  have "idsParse (filter ?U ts)"
    using assms(1) by (simp add: idsParse_iff)
  then have right: "stableSortById (filter ?U ts) = sort_key taskRank (filter ?U ts)"
    by (rule stableSortById_sort_key)
  have "mergedTasks engine ts us = sort_key taskRank ?pre"
    using presort_idsParse [OF assms(1)]
    by (simp add: mergedTasks_sorted_case [OF assms(2)] js_sort_sort_key)
  then have "filter ?U (mergedTasks engine ts us) = sort_key taskRank (filter ?U ?pre)"
    by (simp only: filter_sort)
  also have "\<dots> = sort_key taskRank (filter ?U ts)"
    by (simp only: presort_untouched)
  finally show ?thesis by (simp only: right)
qed

lemma stableSortById_sorted:
  assumes "idsParse xs" and "sorted_wrt idLe xs"
  shows "stableSortById xs = xs"
proof -
  from assms have "sorted (map taskRank xs)"
    by (simp add: sorted_wrt_idLe)
  then have "sort_key taskRank xs = xs"
    by (rule sort_key_id_if_sorted)
  with assms(1) show ?thesis
    by (simp add: stableSortById_sort_key)
qed

lemma mergedTasks_untouched_in_order:
  assumes "idsParse (ts @ us)" and "\<not> taskIdStr ` set us \<subseteq> taskIdStr ` set ts"
    and "sorted_wrt idLe (filter (\<lambda>t. taskIdStr t \<notin> taskIdStr ` set us) ts)"
  shows "filter (\<lambda>t. taskIdStr t \<notin> taskIdStr ` set us) (mergedTasks engine ts us)
           = filter (\<lambda>t. taskIdStr t \<notin> taskIdStr ` set us) ts"
proof -
  have "idsParse (filter (\<lambda>t. taskIdStr t \<notin> taskIdStr ` set us) ts)"
    using assms(1) by (simp add: idsParse_iff)
  then have "stableSortById (filter (\<lambda>t. taskIdStr t \<notin> taskIdStr ` set us) ts)
               = filter (\<lambda>t. taskIdStr t \<notin> taskIdStr ` set us) ts"
    using assms(3) by (rule stableSortById_sorted)
  with mergedTasks_untouched_order [OF assms(1,2), of engine] show ?thesis
    by (simp only:)
qed


subsection \<open>Idempotence\<close>




subsection \<open>The tasks outside the batch\<close>

text \<open>
  C3 (as the claim states it, refuted): the document holds the tasks 5 and 3 in this
  order and the batch holds the new task 9; neither 5 nor 3 is in the batch, and the
  merge returns them in the order 3, 5: the appended task triggers the sort by id.
\<close>

theorem C3_counterexample:
  "mergedTasks v8_sort [plainTask 5 ''pending'' None, plainTask 3 ''pending'' None]
               [plainTask 9 ''pending'' None]
     = [plainTask 3 ''pending'' None, plainTask 5 ''pending'' None, plainTask 9 ''pending'' None]"
  by (simp add: mergedTasks_def updatedTasksMap_def taskIdStr_def plainTask_def
      showInt_3 showInt_5 showInt_9 Map_delete_def Map_values_def js_sort_def idsParse_def
      stableSortById_def compareById_def parseFloat_3 parseFloat_5 parseFloat_9)

text \<open>
  C3 (amended): on every JavaScript engine, the tasks whose id, as a string, is not in the
  batch are in the merged list unchanged and exactly as often as before. When every id of
  the batch is already in the document, the merged list has the length of the original
  and each such task stands at its original index. When the batch brings a new id and
  every id of the document and of the batch parses to a number, the merged list is in
  the order of the numeric ids, and the tasks outside the batch stand in it in the order
  the stable sort by numeric id gives them: in their original order when that is already
  the order of their ids. (When the batch brings a new id and some id does not parse, the
  order is the one the engine's sort returns.)
\<close>

theorem C3_untouched_tasks_kept:
  "mset (filter (\<lambda>t. taskIdStr t \<notin> taskIdStr ` set us) (mergedTasks engine ts us))
     = mset (filter (\<lambda>t. taskIdStr t \<notin> taskIdStr ` set us) ts) \<and>
   (taskIdStr ` set us \<subseteq> taskIdStr ` set ts \<longrightarrow>
      length (mergedTasks engine ts us) = length ts \<and>
      (\<forall>i < length ts. taskIdStr (ts ! i) \<notin> taskIdStr ` set us \<longrightarrow>
          mergedTasks engine ts us ! i = ts ! i)) \<and>
   (idsParse (ts @ us) \<and> \<not> taskIdStr ` set us \<subseteq> taskIdStr ` set ts \<longrightarrow>
      sorted_wrt idLe (mergedTasks engine ts us) \<and>
      filter (\<lambda>t. taskIdStr t \<notin> taskIdStr ` set us) (mergedTasks engine ts us)
        = stableSortById (filter (\<lambda>t. taskIdStr t \<notin> taskIdStr ` set us) ts) \<and>
      (sorted_wrt idLe (filter (\<lambda>t. taskIdStr t \<notin> taskIdStr ` set us) ts) \<longrightarrow>
         filter (\<lambda>t. taskIdStr t \<notin> taskIdStr ` set us) (mergedTasks engine ts us)
           = filter (\<lambda>t. taskIdStr t \<notin> taskIdStr ` set us) ts))"
proof (intro conjI impI allI)
  show "mset (filter (\<lambda>t. taskIdStr t \<notin> taskIdStr ` set us) (mergedTasks engine ts us))
     = mset (filter (\<lambda>t. taskIdStr t \<notin> taskIdStr ` set us) ts)"
    by (rule mergedTasks_untouched_mset)
next
  assume "taskIdStr ` set us \<subseteq> taskIdStr ` set ts"
  then show "length (mergedTasks engine ts us) = length ts"
    by (simp add: mergedTasks_in_place mergeExisting_length)
next
  fix i
  assume "taskIdStr ` set us \<subseteq> taskIdStr ` set ts" and "i < length ts"
    and "taskIdStr (ts ! i) \<notin> taskIdStr ` set us"
  then show "mergedTasks engine ts us ! i = ts ! i"
    by (simp add: mergedTasks_in_place mergeExisting_untouched_nth updatedTasksMap_keys)
next
  assume "idsParse (ts @ us) \<and> \<not> taskIdStr ` set us \<subseteq> taskIdStr ` set ts"
  then show "sorted_wrt idLe (mergedTasks engine ts us)"
    by (simp add: mergedTasks_sorted)
next
  assume "idsParse (ts @ us) \<and> \<not> taskIdStr ` set us \<subseteq> taskIdStr ` set ts"
  then have "idsParse (ts @ us)" and "\<not> taskIdStr ` set us \<subseteq> taskIdStr ` set ts"
    by simp_all
  then show "filter (\<lambda>t. taskIdStr t \<notin> taskIdStr ` set us) (mergedTasks engine ts us)
        = stableSortById (filter (\<lambda>t. taskIdStr t \<notin> taskIdStr ` set us) ts)"
    by (rule mergedTasks_untouched_order)
next
  assume "idsParse (ts @ us) \<and> \<not> taskIdStr ` set us \<subseteq> taskIdStr ` set ts"
    and s: "sorted_wrt idLe (filter (\<lambda>t. taskIdStr t \<notin> taskIdStr ` set us) ts)"
  then have "idsParse (ts @ us)" and "\<not> taskIdStr ` set us \<subseteq> taskIdStr ` set ts"
    by simp_all
  then show "filter (\<lambda>t. taskIdStr t \<notin> taskIdStr ` set us) (mergedTasks engine ts us)
           = filter (\<lambda>t. taskIdStr t \<notin> taskIdStr ` set us) ts"
    using s by (rule mergedTasks_untouched_in_order)
qed

theorem C3_untouched_tasks_kept_witness:
  "taskIdStr ` set [plainTask 2 ''done'' None]
     \<subseteq> taskIdStr ` set [plainTask 1 ''pending'' None, plainTask 2 ''pending'' None] \<and>
   (0::nat) < length [plainTask 1 ''pending'' None, plainTask 2 ''pending'' None] \<and>
   taskIdStr ([plainTask 1 ''pending'' None, plainTask 2 ''pending'' None] ! 0)
     \<notin> taskIdStr ` set [plainTask 2 ''done'' None] \<and>
   length (mergedTasks v8_sort [plainTask 1 ''pending'' None, plainTask 2 ''pending'' None]
             [plainTask 2 ''done'' None]) = 2 \<and>
   mergedTasks v8_sort [plainTask 1 ''pending'' None, plainTask 2 ''pending'' None]
     [plainTask 2 ''done'' None] ! 0 = plainTask 1 ''pending'' None \<and>
   idsParse ([plainTask 1 ''pending'' None, plainTask 3 ''pending'' None,
              plainTask 5 ''pending'' None] @
             [plainTask 4 ''done'' None, plainTask 3 ''done'' None]) \<and>
   \<not> taskIdStr ` set [plainTask 4 ''done'' None, plainTask 3 ''done'' None]
       \<subseteq> taskIdStr ` set [plainTask 1 ''pending'' None, plainTask 3 ''pending'' None,
                            plainTask 5 ''pending'' None] \<and>
   sorted_wrt idLe
     (filter (\<lambda>t. taskIdStr t
                \<notin> taskIdStr ` set [plainTask 4 ''done'' None, plainTask 3 ''done'' None])
        [plainTask 1 ''pending'' None, plainTask 3 ''pending'' None,
         plainTask 5 ''pending'' None]) \<and>
   sorted_wrt idLe
     (mergedTasks v8_sort
        [plainTask 1 ''pending'' None, plainTask 3 ''pending'' None, plainTask 5 ''pending'' None]
        [plainTask 4 ''done'' None, plainTask 3 ''done'' None]) \<and>
   filter (\<lambda>t. taskIdStr t
              \<notin> taskIdStr ` set [plainTask 4 ''done'' None, plainTask 3 ''done'' None])
     (mergedTasks v8_sort
        [plainTask 1 ''pending'' None, plainTask 3 ''pending'' None, plainTask 5 ''pending'' None]
        [plainTask 4 ''done'' None, plainTask 3 ''done'' None])
     = [plainTask 1 ''pending'' None, plainTask 5 ''pending'' None]"
proof -
  let ?ts = "[plainTask 1 ''pending'' None, plainTask 2 ''pending'' None]"
  let ?us = "[plainTask 2 ''done'' None]"
  let ?ts3 = "[plainTask 1 ''pending'' None, plainTask 3 ''pending'' None,
               plainTask 5 ''pending'' None]"
  let ?us3 = "[plainTask 4 ''done'' None, plainTask 3 ''done'' None]"
  let ?U = "\<lambda>t. taskIdStr t \<notin> taskIdStr ` set ?us3"
  have h: "taskIdStr ` set ?us \<subseteq> taskIdStr ` set ?ts" "(0::nat) < length ?ts"
    "taskIdStr (?ts ! 0) \<notin> taskIdStr ` set ?us"
    by (simp_all add: taskIdStr_plainTask showInt_1 showInt_2)
  have p: "idsParse (?ts3 @ ?us3)"
    by (simp add: idsParse_def taskIdStr_plainTask showInt_1 showInt_3 showInt_4 showInt_5
        parseFloat_1 parseFloat_3 parseFloat_4 parseFloat_5)
  have n: "\<not> taskIdStr ` set ?us3 \<subseteq> taskIdStr ` set ?ts3"
    by (simp add: taskIdStr_plainTask showInt_1 showInt_3 showInt_4 showInt_5)
  have f: "filter ?U ?ts3 = [plainTask 1 ''pending'' None, plainTask 5 ''pending'' None]"
    by (simp add: taskIdStr_plainTask showInt_1 showInt_3 showInt_4 showInt_5)
  have s: "sorted_wrt idLe (filter ?U ?ts3)"
    unfolding f
    by (simp add: idLe_def compareById_def taskIdStr_plainTask showInt_1 showInt_5
        parseFloat_1 parseFloat_5)
  from C3_untouched_tasks_kept [of ?us v8_sort ?ts] h
  have a: "length (mergedTasks v8_sort ?ts ?us) = length ?ts"
    "mergedTasks v8_sort ?ts ?us ! 0 = ?ts ! 0"
    by blast+
  from C3_untouched_tasks_kept [of ?us3 v8_sort ?ts3] p n s
  have b: "sorted_wrt idLe (mergedTasks v8_sort ?ts3 ?us3)"
    "filter ?U (mergedTasks v8_sort ?ts3 ?us3) = filter ?U ?ts3"
    by blast+
  from h p n s a b f show ?thesis by simp
qed

subsection \<open>Completed subtasks\<close>

text \<open>
  C1 (as the claim states it, refuted): task 7 has one subtask, with status \<open>done\<close>; the
  batch holds a task 7 with an empty subtask list; the merged task 7 is the one of the
  batch, and the completed subtask is gone.
\<close>

theorem C1_counterexample:
  "isCompleted ''done'' \<and>
   mergedTasks v8_sort
       [plainTask 7 ''pending'' (Some [plainSub (Some (IdNum 1)) (Some ''done'')])]
       [plainTask 7 ''pending'' (Some [])]
     = [plainTask 7 ''pending'' (Some [])]"
  by (simp add: isCompleted_def mergedTasks_def updatedTasksMap_def taskIdStr_def plainTask_def
      showInt_7 Map_delete_def)

text \<open>
  C1 (amended): every completed subtask of an original task whose id, as a string, is not
  in the batch is still there after the merge, unmodified and at the same index of the
  subtask list of a task with that task's id, on every JavaScript engine.
\<close>

theorem C1_completed_subtasks_of_untouched_tasks:
  assumes "t \<in> set ts" and "taskIdStr t \<notin> taskIdStr ` set us"
    and "subtasks t = Some subs" and "i < length subs"
    and "sub_status (subs ! i) = Some st" and "isCompleted st"
  shows "\<exists>t' \<in> set (mergedTasks engine ts us).
           task_id t' = task_id t \<and>
           (\<exists>subs'. subtasks t' = Some subs' \<and> i < length subs' \<and> subs' ! i = subs ! i)"
proof -
  have "t \<in> set (mergedTasks engine ts us)"
    using assms(1,2) by (rule untouched_in_merged)
  moreover have "\<exists>subs'. subtasks t = Some subs' \<and> i < length subs' \<and> subs' ! i = subs ! i"
    using assms(3,4) by simp
  ultimately show ?thesis by blast
qed

theorem C1_completed_subtasks_of_untouched_tasks_witness:
  "plainTask 7 ''pending'' (Some [plainSub (Some (IdNum 1)) (Some ''done'')])
     \<in> set [plainTask 7 ''pending'' (Some [plainSub (Some (IdNum 1)) (Some ''done'')]),
            plainTask 8 ''pending'' None] \<and>
   taskIdStr (plainTask 7 ''pending'' (Some [plainSub (Some (IdNum 1)) (Some ''done'')]))
     \<notin> taskIdStr ` set [plainTask 8 ''done'' None] \<and>
   subtasks (plainTask 7 ''pending'' (Some [plainSub (Some (IdNum 1)) (Some ''done'')]))
     = Some [plainSub (Some (IdNum 1)) (Some ''done'')] \<and>
   (0::nat) < length [plainSub (Some (IdNum 1)) (Some ''done'')] \<and>
   sub_status ([plainSub (Some (IdNum 1)) (Some ''done'')] ! 0) = Some ''done'' \<and>
   isCompleted ''done'' \<and>
   (\<exists>t' \<in> set (mergedTasks v8_sort
                  [plainTask 7 ''pending'' (Some [plainSub (Some (IdNum 1)) (Some ''done'')]),
                   plainTask 8 ''pending'' None]
                  [plainTask 8 ''done'' None]).
      task_id t' = task_id (plainTask 7 ''pending''
                              (Some [plainSub (Some (IdNum 1)) (Some ''done'')])) \<and>
      (\<exists>subs'. subtasks t' = Some subs' \<and> 0 < length subs' \<and>
                subs' ! 0 = [plainSub (Some (IdNum 1)) (Some ''done'')] ! 0))"
proof -
  let ?s = "plainSub (Some (IdNum 1)) (Some ''done'')"
  let ?t = "plainTask 7 ''pending'' (Some [?s])"
  let ?ts = "[?t, plainTask 8 ''pending'' None]"
  let ?us = "[plainTask 8 ''done'' None]"
  have h: "?t \<in> set ?ts" "taskIdStr ?t \<notin> taskIdStr ` set ?us"
    "subtasks ?t = Some [?s]" "(0::nat) < length [?s]"
    "sub_status ([?s] ! 0) = Some ''done''" "isCompleted ''done''"
    by (simp_all add: taskIdStr_def plainTask_def plainSub_def showInt_7 showInt_8
        isCompleted_def)
  from C1_completed_subtasks_of_untouched_tasks [where engine = v8_sort, OF h] h show ?thesis
    by simp
qed

section \<open>Properties of the numbering\<close>

lemma map_enumerate_index:
  "map (\<lambda>(i, x). g i) (enumerate n xs) = map g [n..<n + length xs]"
  by (induction xs arbitrary: n) (auto simp: upt_rec)

lemma contiguousIds_renumber: "contiguousIds (renumber subs)"
proof -
  have "map sub_id (renumber subs)
      = map (\<lambda>(i, x). Some (IdNum (int i + 1))) (enumerate 0 subs)"
    by (simp add: renumber_def split_beta)
  also have "\<dots> = map (\<lambda>i. Some (IdNum (int i + 1))) [0..<0 + length subs]"
    by (rule map_enumerate_index)
  finally show ?thesis
    by (simp add: contiguousIds_def renumber_def)
qed

lemma contiguousIds_assignIds: "contiguousIds (assignIds (Suc 0) subs)"
proof -
  have "map sub_id (assignIds (Suc 0) subs)
      = map (\<lambda>(i, x). Some (IdNum (int i + 1))) (enumerate 0 subs)"
    by (simp add: assignIds_def split_beta)
  also have "\<dots> = map (\<lambda>i. Some (IdNum (int i + 1))) [0..<0 + length subs]"
    by (rule map_enumerate_index)
  finally show ?thesis
    by (simp add: contiguousIds_def assignIds_def)
qed

lemma allContiguous_iff: "allContiguous ts \<longleftrightarrow> (\<forall>t \<in> set ts. contiguousIds (subtasksOf t))"
  by (simp add: allContiguous_def list_all_iff)

lemma allContiguous_update:
  "allContiguous ts \<Longrightarrow> contiguousIds (subtasksOf t) \<Longrightarrow> allContiguous (ts[i := t])"
  unfolding allContiguous_iff using set_update_subset_insert [of ts i t] by auto

lemma subtasksLength_none: "\<not> hasSubtasks t \<Longrightarrow> subtasksLength t = 0"
  by (auto simp: hasSubtasks_def subtasksLength_def split: option.splits list.splits)

lemma subtasksLength_cleared: "subtasksLength (t\<lparr>subtasks := Some []\<rparr>) = 0"
  by (simp add: subtasksLength_def)

lemma expandTaskDirect_files:
  assumes "readJSON fs p = Some d"
  shows "snd (expandTaskDirect p idArg force sa gen regen fs) = fs \<or>
         (\<exists>i t new. snd (expandTaskDirect p idArg force sa gen regen fs) =
            writeJSON p (d\<lparr>tasks := (tasks d)[i := t\<lparr>subtasks := Some (assignIds (Suc 0) new)\<rparr>]\<rparr>) fs)"
proof (cases gen)
  case (Generated newSubtasks)
  show ?thesis
  proof (cases regen)
    case None
    with Generated assms show ?thesis
      by (auto simp: expandTaskDirect_def Let_def subtasksLength_none subtasksLength_cleared
          split: option.splits)
  next
    case (Some msg)
    with Generated assms show ?thesis
      by (auto simp: expandTaskDirect_def Let_def subtasksLength_none subtasksLength_cleared
          split: option.splits)
  qed
qed (auto simp: expandTaskDirect_def Let_def split: option.splits)

lemma expandTaskDirect_contiguous:
  assumes "allContiguous (storedTasks fs p)"
  shows "allContiguous (storedTasks (snd (expandTaskDirect p idArg force sa gen regen fs)) p)"
proof (cases "readJSON fs p")
  case None
  then have "snd (expandTaskDirect p idArg force sa gen regen fs) = fs"
    by (auto simp: expandTaskDirect_def split: option.splits)
  with assms show ?thesis by simp
next
  case (Some d)
  with assms have d: "allContiguous (tasks d)"
    by (simp add: storedTasks_def)
  have upd: "allContiguous ((tasks d)[i := t\<lparr>subtasks := Some (assignIds (Suc 0) new)\<rparr>])"
    for i t new
    using d by (rule allContiguous_update) (simp add: subtasksOf_def contiguousIds_assignIds)
  have stored: "storedTasks (writeJSON p d' fs) p = tasks d'" for d'
    by (simp add: storedTasks_def readJSON_def writeJSON_def)
  from expandTaskDirect_files [OF Some, of idArg force sa gen regen]
  show ?thesis
  proof
    assume "snd (expandTaskDirect p idArg force sa gen regen fs) = fs"
    with assms show ?thesis by simp
  next
    assume "\<exists>i t new. snd (expandTaskDirect p idArg force sa gen regen fs) =
            writeJSON p (d\<lparr>tasks := (tasks d)[i := t\<lparr>subtasks := Some (assignIds (Suc 0) new)\<rparr>]\<rparr>) fs"
    then obtain i t new where "snd (expandTaskDirect p idArg force sa gen regen fs) =
            writeJSON p (d\<lparr>tasks := (tasks d)[i := t\<lparr>subtasks := Some (assignIds (Suc 0) new)\<rparr>]\<rparr>) fs"
      by blast
    then show ?thesis by (simp add: stored upd)
  qed
qed

lemma saveLoop_skip:
  "map_of tm (String_js (taskId update)) = None \<or>
   (map_of tm (String_js (taskId update)) = Some idx \<and> hasSubtasks (ts ! idx) \<and> \<not> force) \<Longrightarrow>
   saveLoop tm force (update # rest) ts u s = saveLoop tm force rest ts u (s + 1)"
  by auto

lemma saveLoop_assign:
  "map_of tm (String_js (taskId update)) = Some idx \<Longrightarrow> \<not> hasSubtasks (ts ! idx) \<or> force \<Longrightarrow>
   saveLoop tm force (update # rest) ts u s =
     (case upd_subtasks update of
        None \<Rightarrow> Inl ''Cannot read properties of undefined (reading map)''
      | Some subs \<Rightarrow>
          saveLoop tm force rest (ts[idx := (ts ! idx)\<lparr>subtasks := Some (renumber subs)\<rparr>])
            (u + 1) s)"
  by auto

lemma saveLoop_contiguous:
  "allContiguous ts \<Longrightarrow> saveLoop tm force ups ts u s = Inr (ts', u', s') \<Longrightarrow> allContiguous ts'"
proof (induction ups arbitrary: ts u s)
  case Nil
  then show ?case by simp
next
  case (Cons update rest)
  note run = Cons.prems(2)
  show ?case
  proof (cases "map_of tm (String_js (taskId update))")
    case None
    then have "saveLoop tm force (update # rest) ts u s = saveLoop tm force rest ts u (s + 1)"
      by (intro saveLoop_skip) simp
    with run have "saveLoop tm force rest ts u (s + 1) = Inr (ts', u', s')"
      by (simp only:)
    with Cons.prems(1) show ?thesis by (rule Cons.IH)
  next
    case (Some idx)
    show ?thesis
    proof (cases "hasSubtasks (ts ! idx) \<and> \<not> force")
      case True
      with Some
      have "saveLoop tm force (update # rest) ts u s = saveLoop tm force rest ts u (s + 1)"
        by (intro saveLoop_skip [where idx = idx]) simp
      with run have "saveLoop tm force rest ts u (s + 1) = Inr (ts', u', s')"
        by (simp only:)
      with Cons.prems(1) show ?thesis by (rule Cons.IH)
    next
      case False
      then have "\<not> hasSubtasks (ts ! idx) \<or> force" by simp
      with Some have step: "saveLoop tm force (update # rest) ts u s =
         (case upd_subtasks update of
            None \<Rightarrow> Inl ''Cannot read properties of undefined (reading map)''
          | Some subs \<Rightarrow>
              saveLoop tm force rest (ts[idx := (ts ! idx)\<lparr>subtasks := Some (renumber subs)\<rparr>])
                (u + 1) s)"
        by (rule saveLoop_assign)
      show ?thesis
      proof (cases "upd_subtasks update")
        case None
        with step run show ?thesis by (simp only: option.case sum.distinct)
      next
        case (Some subs)
        let ?ts = "ts[idx := (ts ! idx)\<lparr>subtasks := Some (renumber subs)\<rparr>]"
        have "allContiguous ?ts"
          using Cons.prems(1)
          by (rule allContiguous_update) (simp add: subtasksOf_def contiguousIds_renumber)
        moreover have "saveLoop tm force rest ?ts (u + 1) s = Inr (ts', u', s')"
          using run step Some by (simp only: option.case)
        ultimately show ?thesis by (rule Cons.IH)
      qed
    qed
  qed
qed

lemma saveMultipleTaskSubtasksDirect_contiguous:
  assumes "allContiguous (storedTasks fs p)"
  shows "allContiguous (storedTasks (snd (saveMultipleTaskSubtasksDirect p r ups force fs)) p)"
proof (cases "snd (saveMultipleTaskSubtasksDirect p r ups force fs) = fs")
  case True
  with assms show ?thesis by simp
next
  case False
  then obtain d us ts' u' s' where
      d: "readJSON fs p = Some d" and
      loop: "saveLoop (taskMap (tasks d)) force us (tasks d) 0 0 = Inr (ts', u', s')" and
      res: "snd (saveMultipleTaskSubtasksDirect p r ups force fs)
              = writeJSON p (d\<lparr>tasks := ts'\<rparr>) fs"
    by (auto simp: saveMultipleTaskSubtasksDirect_def split: if_splits option.splits sum.splits)
  from assms d have "allContiguous (tasks d)"
    by (simp add: storedTasks_def)
  then have "allContiguous ts'" using loop by (rule saveLoop_contiguous)
  then show ?thesis
    by (simp add: res storedTasks_def readJSON_def writeJSON_def)
qed

lemma saveUpdatedTasksDirect_contiguous:
  assumes "allContiguous (storedTasks fs p)" and "allContiguous us"
  shows "allContiguous (storedTasks (snd (saveUpdatedTasksDirect engine p r (Some us) fs)) p)"
proof (cases "snd (saveUpdatedTasksDirect engine p r (Some us) fs) = fs")
  case True
  with assms show ?thesis by simp
next
  case False
  then obtain d where
      d: "readJSON fs p = Some d" and
      res: "snd (saveUpdatedTasksDirect engine p r (Some us) fs)
              = writeJSON p (d\<lparr>tasks := mergedTasks engine (tasks d) us\<rparr>) fs"
    by (auto simp: saveUpdatedTasksDirect_def split: if_splits option.splits)
  from assms d have "allContiguous (tasks d)"
    by (simp add: storedTasks_def)
  with assms(2) have "allContiguous (mergedTasks engine (tasks d) us)"
    unfolding allContiguous_iff using mergedTasks_set [of engine "tasks d" us] by blast
  then show ?thesis
    by (simp add: res storedTasks_def readJSON_def writeJSON_def)
qed

text \<open>
  C2 (as the claim states it, refuted): the stored document has the one task 7, without
  subtasks; the batch holds a task 7 whose only subtask has the id 5. After
  \<^verbatim>\<open>saveUpdatedTasksDirect\<close> the stored task 7 has the subtask ids \<open>[5]\<close>, not \<open>[1]\<close>: the merge
  stores the batch's task as it is.
\<close>

theorem C2_counterexample:
  "allContiguous (storedTasks (oneFile (docOf [plainTask 7 ''pending'' None])) ''tasks.json'') \<and>
   \<not> allContiguous (storedTasks
        (snd (saveUpdatedTasksDirect v8_sort ''tasks.json'' ''/proj''
                (Some [plainTask 7 ''pending'' (Some [plainSub (Some (IdNum 5)) None])])
                (oneFile (docOf [plainTask 7 ''pending'' None]))))
        ''tasks.json'')"
  by (simp add: saveUpdatedTasksDirect_def readJSON_def writeJSON_def oneFile_def docOf_def
      storedTasks_def mergedTasks_def updatedTasksMap_def taskIdStr_def plainTask_def
      plainSub_def showInt_7 Map_delete_def allContiguous_def contiguousIds_def subtasksOf_def)

text \<open>
  C2 (amended): the two operations that write generated subtask lists number them
  themselves. If in the stored document every task's subtask ids are the run \<open>1..N\<close>, they
  still are after \<^verbatim>\<open>expandTaskDirect\<close> and after \<^verbatim>\<open>saveMultipleTaskSubtasksDirect\<close>, whatever
  ids the generator supplied and whatever the outcome of the call. The reconciliation
  merge does no numbering: after \<^verbatim>\<open>saveUpdatedTasksDirect\<close> the same holds provided every
  task of the batch has the subtask ids \<open>1..N\<close> itself.
\<close>

theorem C2_numbering_preserved:
  assumes "allContiguous (storedTasks fs p)"
  shows "allContiguous (storedTasks (snd (expandTaskDirect p idArg force sa gen regen fs)) p) \<and>
         allContiguous (storedTasks (snd (saveMultipleTaskSubtasksDirect p r ups force fs)) p) \<and>
         (allContiguous us \<longrightarrow>
            allContiguous (storedTasks (snd (saveUpdatedTasksDirect engine p r (Some us) fs)) p))"
  using assms
  by (simp add: expandTaskDirect_contiguous saveMultipleTaskSubtasksDirect_contiguous
      saveUpdatedTasksDirect_contiguous)

theorem C2_numbering_preserved_witness:
  "allContiguous (storedTasks (oneFile (docOf [plainTask 1 ''pending'' None])) ''tasks.json'') \<and>
   allContiguous [plainTask 1 ''pending'' (Some [plainSub (Some (IdNum 1)) None])] \<and>
   allContiguous (storedTasks
     (snd (expandTaskDirect ''tasks.json'' ''1'' False True
             (Generated [plainSub None None, plainSub (Some (IdNum 9)) None]) None
             (oneFile (docOf [plainTask 1 ''pending'' None])))) ''tasks.json'') \<and>
   allContiguous (storedTasks
     (snd (saveMultipleTaskSubtasksDirect ''tasks.json'' ''/proj''
             (Some [\<lparr>taskId = IdNum 1, upd_subtasks = Some [plainSub (Some (IdNum 4)) None]\<rparr>])
             False (oneFile (docOf [plainTask 1 ''pending'' None])))) ''tasks.json'') \<and>
   allContiguous (storedTasks
     (snd (saveUpdatedTasksDirect v8_sort ''tasks.json'' ''/proj''
             (Some [plainTask 1 ''pending'' (Some [plainSub (Some (IdNum 1)) None])])
             (oneFile (docOf [plainTask 1 ''pending'' None])))) ''tasks.json'')"
proof -
  have h: "allContiguous (storedTasks (oneFile (docOf [plainTask 1 ''pending'' None]))
             ''tasks.json'')"
    "allContiguous [plainTask 1 ''pending'' (Some [plainSub (Some (IdNum 1)) None])]"
    by (simp_all add: storedTasks_def readJSON_def oneFile_def docOf_def plainTask_def
        plainSub_def allContiguous_def contiguousIds_def subtasksOf_def)
  from C2_numbering_preserved [OF h(1), of "''1''" False True
      "Generated [plainSub None None, plainSub (Some (IdNum 9)) None]" None "''/proj''"
      "Some [\<lparr>taskId = IdNum 1, upd_subtasks = Some [plainSub (Some (IdNum 4)) None]\<rparr>]"
      "[plainTask 1 ''pending'' (Some [plainSub (Some (IdNum 1)) None])]" v8_sort] h
  show ?thesis by simp
qed

end
